theory Spec2Isabelle
  imports Complex_Main "HOL-Library.Sublist"
begin

section \<open>Conventions of the embedding\<close>

text \<open>
  The program is \<^verbatim>\<open>run_pipeline.py\<close>, a script. Its own control flow, its tests on the
  file system, its indexing and its exception handler are embedded as HOL functions. The
  libraries it calls (spikeinterface, ibllib, phylib, the sorter) are not part of the
  program: their functions are the fields of a record that every definition takes as an
  argument, so a theorem holds for every behaviour of the library.

  A path is the list of its components, so \<^verbatim>\<open>join(a, b)\<close> appends one component and
  \<^verbatim>\<open>split(p)[1]\<close> is the last one. Exceptions are values of the type \<open>exn\<close>.
\<close>

type_synonym path = "string list"

type_synonym chan = string

datatype exn =
    IndexError
  | KeyError
  | ValueError
  | FileNotFoundError path
  | FileExistsError path
  | Collaborator string

definition join :: "path \<Rightarrow> string \<Rightarrow> path" where
  "join p name = p @ [name]"

definition bind_exn :: "exn + 'a \<Rightarrow> ('a \<Rightarrow> exn + 'b) \<Rightarrow> exn + 'b" where
  "bind_exn m f = (case m of Inl e \<Rightarrow> Inl e | Inr x \<Rightarrow> f x)"

section \<open>The signal conditioning chain (lines 127 to 214)\<close>

text \<open>
  The keyword arguments of \<^verbatim>\<open>si.detect_bad_channels\<close>. A field that is \<open>None\<close> is an
  argument the call does not pass, so the library's default applies.
\<close>

record dbc_args =
  method_arg :: "string option"
  std_mad_threshold :: "int option"
  seed :: int

text \<open>
  The functions of spikeinterface the chain calls, over any type \<open>'r\<close> of recordings.
  \<open>detect_bad_channels\<close> returns the pair the library returns: the identifiers it calls
  bad, and one label per channel. \<open>split_by_group\<close> is \<^verbatim>\<open>rec.split_by(property='group')\<close>, a
  dictionary from a group label to the sub-recording, given by its items.
\<close>

record 'r si =
  highpass_filter :: "'r \<Rightarrow> string \<Rightarrow> string \<Rightarrow> 'r"
  phase_shift :: "'r \<Rightarrow> 'r"
  common_reference :: "'r \<Rightarrow> 'r"
  detect_bad_channels :: "'r \<Rightarrow> dbc_args \<Rightarrow> chan list \<times> string list"
  get_channel_ids :: "'r \<Rightarrow> chan list"
  interpolate_bad_channels :: "'r \<Rightarrow> chan list \<Rightarrow> 'r"
  get_property_group :: "'r \<Rightarrow> int list"
  split_by_group :: "'r \<Rightarrow> (int \<times> 'r) list"
  highpass_spatial_filter :: "'r \<Rightarrow> 'r"
  aggregate_channels :: "'r list \<Rightarrow> chan list \<Rightarrow> 'r"
  notch_filter :: "'r \<Rightarrow> rat \<Rightarrow> rat \<Rightarrow> 'r"

text \<open>
  \<^verbatim>\<open>notch_filter.json\<close> once parsed: the lists under its keys \<^verbatim>\<open>FREQ\<close> and \<^verbatim>\<open>Q\<close>.
\<close>

record notch_config =
  notch_FREQ :: "rat list"
  notch_Q :: "rat list"

text \<open>
  \<^verbatim>\<open>a[mask]\<close> with a boolean numpy array: the entries of \<open>a\<close> where the mask is true.
  numpy raises IndexError when the two lengths differ, except for an empty mask, which
  selects nothing from any array.
\<close>

definition bool_index :: "'a list \<Rightarrow> bool list \<Rightarrow> exn + 'a list" where
  "bool_index a msk =
     (if length msk = length a \<or> msk = [] then Inr (map fst (filter snd (zip a msk)))
      else Inl IndexError)"

text \<open>\<^verbatim>\<open>all_channels == label\<close>, elementwise.\<close>

definition labelled :: "string \<Rightarrow> string list \<Rightarrow> bool list" where
  "labelled label all_channels = map (\<lambda>l. l = label) all_channels"

text \<open>
  \<^verbatim>\<open>np.sum(all_channels == label) / all_channels.shape[0]\<close>, kept as the pair of the count
  and the number of channels (the script prints the count and the quotient as a percentage).
\<close>

definition class_fraction :: "string \<Rightarrow> string list \<Rightarrow> nat \<times> nat" where
  "class_fraction label all_channels =
     (length (filter (\<lambda>b. b) (labelled label all_channels)), length all_channels)"

text \<open>
  The loop of lines 168 and 169 over \<^verbatim>\<open>range(len(rec_split))\<close>: \<^verbatim>\<open>rec_split[sh]\<close> looks the
  integer \<open>sh\<close> up among the group labels and raises KeyError when no group has that label.
\<close>

fun destripe_shanks :: "'r si \<Rightarrow> (int \<times> 'r) list \<Rightarrow> nat list \<Rightarrow> exn + 'r list" where
  "destripe_shanks lib rec_split [] = Inr []"
| "destripe_shanks lib rec_split (sh # shs) =
     (case map_of rec_split (int sh) of
        None \<Rightarrow> Inl KeyError
      | Some shank \<Rightarrow>
          bind_exn (destripe_shanks lib rec_split shs)
            (\<lambda>rest. Inr (highpass_spatial_filter lib shank # rest)))"

text \<open>
  Lines 163 to 178. \<^verbatim>\<open>np.unique(groups).shape[0]\<close> is the number of distinct group labels.
\<close>

definition destripe :: "'r si \<Rightarrow> 'r \<Rightarrow> exn + 'r" where
  "destripe lib rec_interp =
     (if length (remdups (get_property_group lib rec_interp)) > 1
      then
        (let rec_split = split_by_group lib rec_interp
         in bind_exn (destripe_shanks lib rec_split [0 ..< length rec_split])
              (\<lambda>parts. Inr (aggregate_channels lib parts (get_channel_ids lib rec_interp))))
      else Inr (highpass_spatial_filter lib rec_interp))"

text \<open>
  The loop of lines 197 to 200 over \<^verbatim>\<open>zip(notch_filter['FREQ'], notch_filter['Q'])\<close>: the
  variable \<^verbatim>\<open>rec_notch\<close> is replaced by its filtered version at every pair.
\<close>

fun apply_notch :: "'r si \<Rightarrow> 'r \<Rightarrow> (rat \<times> rat) list \<Rightarrow> 'r" where
  "apply_notch lib rec_notch [] = rec_notch"
| "apply_notch lib rec_notch ((freq, q) # pairs) =
     apply_notch lib (notch_filter lib rec_notch freq q) pairs"

text \<open>
  Lines 190 to 214. The argument is \<open>None\<close> when \<^verbatim>\<open>notch_filter.json\<close> is not a file of the
  probe's directory, and the parsed file otherwise.
\<close>

definition notch_stage :: "'r si \<Rightarrow> notch_config option \<Rightarrow> 'r \<Rightarrow> 'r" where
  "notch_stage lib notch rec_destr =
     (case notch of
        Some cfg \<Rightarrow> apply_notch lib rec_destr (zip (notch_FREQ cfg) (notch_Q cfg))
      | None \<Rightarrow> rec_destr)"

text \<open>
  The keyword arguments of the two calls of lines 142 and 151: the first passes the seed
  only, the second the method, the threshold and the same seed.
\<close>

definition pass_a_args :: dbc_args where
  "pass_a_args = \<lparr>method_arg = None, std_mad_threshold = None, seed = 42\<rparr>"

definition pass_b_args :: dbc_args where
  "pass_b_args = \<lparr>method_arg = Some ''mad'', std_mad_threshold = Some 3, seed = 42\<rparr>"

text \<open>The local variables of the chain, as the script names them.\<close>

record 'r cond_env =
  rec_filtered :: 'r
  rec_shifted :: 'r
  rec_comref :: 'r
  prec_dead_ch :: "nat \<times> nat"
  dead_channel_ids :: "chan list"
  prec_out_ch :: "nat \<times> nat"
  out_channel_ids :: "chan list"
  prec_noise_ch :: "nat \<times> nat"
  noisy_channel_ids :: "chan list"
  rec_interpolated :: 'r
  rec_destriped :: 'r
  rec_final :: 'r

text \<open>
  Lines 127 to 214, from the loaded recording to \<^verbatim>\<open>rec_final\<close>. The plots of the spectral
  density (lines 180 to 187 and 202 to 209) write images only and are left out.
\<close>

definition condition :: "'r si \<Rightarrow> notch_config option \<Rightarrow> 'r \<Rightarrow> exn + 'r cond_env" where
  "condition lib notch raw =
     (let filtered = highpass_filter lib raw ''bessel'' ''float32'';
          shifted = phase_shift lib filtered;
          comref = common_reference lib filtered;
          pass_a = snd (detect_bad_channels lib filtered pass_a_args)
      in bind_exn (bool_index (get_channel_ids lib filtered) (labelled ''dead'' pass_a))
       (\<lambda>dead. bind_exn (bool_index (get_channel_ids lib filtered) (labelled ''out'' pass_a))
       (\<lambda>out.
          let pass_b = snd (detect_bad_channels lib comref pass_b_args)
          in bind_exn (bool_index (get_channel_ids lib comref) (labelled ''noise'' pass_b))
       (\<lambda>noisy.
          let interpolated = interpolate_bad_channels lib shifted (dead @ noisy @ out)
          in bind_exn (destripe lib interpolated)
       (\<lambda>destriped.
          Inr \<lparr>rec_filtered = filtered, rec_shifted = shifted, rec_comref = comref,
               prec_dead_ch = class_fraction ''dead'' pass_a, dead_channel_ids = dead,
               prec_out_ch = class_fraction ''out'' pass_a, out_channel_ids = out,
               prec_noise_ch = class_fraction ''noise'' pass_b, noisy_channel_ids = noisy,
               rec_interpolated = interpolated, rec_destriped = destriped,
               rec_final = notch_stage lib notch destriped\<rparr>)))))"

section \<open>Settings, file system and collaborators\<close>

text \<open>
  The entries of \<^verbatim>\<open>settings.json\<close> that the probe loop reads, and the run identifier
  of lines 39 to 42.
\<close>

record settings =
  SPIKE_SORTER :: string
  IDENTIFIER :: string

definition id_str :: "settings \<Rightarrow> string" where
  "id_str cfg = (if length (IDENTIFIER cfg) > 0 then ''_'' @ IDENTIFIER cfg else [])"

text \<open>
  \<^verbatim>\<open>nidq_sync_dictionary['SYNC_WIRING_DIGITAL']\<close>: the items of the dictionary, in order.
\<close>

type_synonym wiring = "(string \<times> string) list"

text \<open>
  The file system as far as the script tests and changes it: the directories that exist
  and the files with their contents.
\<close>

datatype content = Text string | Npy "rat list"

record fs =
  dirs :: "path set"
  files :: "path \<rightharpoonup> content"

text \<open>\<^verbatim>\<open>shutil.rmtree(p)\<close> on an existing directory removes it and all that is below it.\<close>

definition rmtree :: "path \<Rightarrow> 'a fs_scheme \<Rightarrow> 'a fs_scheme" where
  "rmtree p st =
     st\<lparr>dirs := {d \<in> dirs st. \<not> prefix p d},
        files := (\<lambda>f. if prefix p f then None else files st f)\<rparr>"

text \<open>
  The three arrays of lines 311 to 313, loaded from the files that the synchronisation
  task wrote.
\<close>

record sync_arrays =
  sync_times :: "rat list"
  sync_polarities :: "int list"
  sync_channels :: "int list"

text \<open>
  What the call of the sorter did when control comes back to the script: it returned (its
  output folder and \<^verbatim>\<open>sorter_output\<close> below it then exist), or it raised an exception with
  the given text, having created its output folder before (\<open>True\<close>) or not (\<open>False\<close>).
\<close>

datatype sorter_result = Sorted | Raised string bool

text \<open>
  The calls the script makes for a probe, each with the probe's name: the trace of a run
  is the list of them in order.
\<close>

datatype 'r event =
    EphysSyncPulses string
  | EphysPulses string
  | Conditioning string
  | RunSorter string 'r
  | SorterFailed string string
  | PreExport string
  | ExportAlf string

fun event_probe :: "'r event \<Rightarrow> string" where
  "event_probe (EphysSyncPulses n) = n"
| "event_probe (EphysPulses n) = n"
| "event_probe (Conditioning n) = n"
| "event_probe (RunSorter n r) = n"
| "event_probe (SorterFailed n e) = n"
| "event_probe (PreExport n) = n"
| "event_probe (ExportAlf n) = n"

text \<open>
  The state of a run: the file system, the array \<^verbatim>\<open>probe_done\<close> and the trace.
\<close>

record 'r state = fs +
  probe_done :: "bool list"
  trace :: "'r event list"

text \<open>
  The collaborators of the probe loop. \<open>glob\<close> gives the names of the entries of a
  directory that match a pattern. \<open>pre_export\<close> stands for the calls of lines 245 to 273
  (raw-data quality control, Bombcell, the rewriting of \<^verbatim>\<open>params.py\<close>) and \<open>export_alf\<close> for
  those of lines 278 to 308 (the export, the quality files and labels, the synchronisation
  of the spike times): each gives the text of the exception when one of them raises. Of
  what the collaborators write, the state keeps the directories and files that the script
  itself tests, creates or deletes.
\<close>

record 'r world =
  si_lib :: "'r si"
  glob :: "path \<Rightarrow> string \<Rightarrow> string list"
  read_cbin_ibl :: "path \<Rightarrow> 'r"
  read_spikeglx :: "path \<Rightarrow> string \<Rightarrow> 'r"
  notch_filter_json :: "path \<Rightarrow> notch_config option"
  run_sorter :: "string \<Rightarrow> 'r \<Rightarrow> path \<Rightarrow> sorter_result"
  pre_export :: "path \<Rightarrow> string option"
  export_alf :: "path \<Rightarrow> string option"
  sync_npy :: "path \<Rightarrow> sync_arrays"

section \<open>Digital synchronisation timestamps (lines 310 to 319)\<close>

text \<open>\<^verbatim>\<open>int(c)\<close> for a string of one character.\<close>

definition digit_of :: "char \<Rightarrow> int option" where
  "digit_of c =
     map_of [(CHR ''0'', 0), (CHR ''1'', 1), (CHR ''2'', 2), (CHR ''3'', 3), (CHR ''4'', 4),
             (CHR ''5'', 5), (CHR ''6'', 6), (CHR ''7'', 7), (CHR ''8'', 8), (CHR ''9'', 9)] c"

text \<open>
  \<^verbatim>\<open>int(ch_name[-1])\<close>: IndexError on the empty string, ValueError when the last character
  is not a digit.
\<close>

definition line_number :: "string \<Rightarrow> exn + int" where
  "line_number ch_name =
     (if ch_name = [] then Inl IndexError
      else case digit_of (last ch_name) of None \<Rightarrow> Inl ValueError | Some d \<Rightarrow> Inr d)"

text \<open>
  \<^verbatim>\<open>a & b\<close> on boolean arrays of one dimension: elementwise when the lengths agree, an
  array of length one is broadcast, and numpy raises ValueError otherwise.
\<close>

definition broadcast_and :: "bool list \<Rightarrow> bool list \<Rightarrow> exn + bool list" where
  "broadcast_and a b =
     (if length a = length b then Inr (map (\<lambda>(x, y). x \<and> y) (zip a b))
      else if length a = 1 then Inr (map (\<lambda>y. hd a \<and> y) b)
      else if length b = 1 then Inr (map (\<lambda>x. x \<and> hd b) a)
      else Inl ValueError)"

text \<open>Line 317 for the channel number \<open>c\<close>.\<close>

definition nidq_pulses :: "sync_arrays \<Rightarrow> int \<Rightarrow> exn + rat list" where
  "nidq_pulses s c =
     bind_exn (broadcast_and (map (\<lambda>x. x = c) (sync_channels s))
                             (map (\<lambda>p. p = 1) (sync_polarities s)))
       (bool_index (sync_times s))"

text \<open>
  The path of line 318 for the logical name of a line.
\<close>

definition times_file :: "path \<Rightarrow> string \<Rightarrow> path" where
  "times_file session_path name = join session_path (name @ ''.times.npy'')"

text \<open>
  The loop of lines 314 to 319 over the keys of the wiring dictionary. \<^verbatim>\<open>np.save\<close> writes
  the pulses to the file named by the value under the key.
\<close>

fun sync_loop :: "path \<Rightarrow> wiring \<Rightarrow> sync_arrays \<Rightarrow> string list \<Rightarrow> 'a fs_scheme
    \<Rightarrow> exn option \<times> 'a fs_scheme" where
  "sync_loop session_path wir s [] st = (None, st)"
| "sync_loop session_path wir s (ch_name # rest) st =
     (if ch_name = ''imec_sync'' then sync_loop session_path wir s rest st
      else case line_number ch_name of
        Inl e \<Rightarrow> (Some e, st)
      | Inr c \<Rightarrow>
          (case nidq_pulses s c of
             Inl e \<Rightarrow> (Some e, st)
           | Inr pulses \<Rightarrow>
               (case map_of wir ch_name of
                  None \<Rightarrow> (Some KeyError, st)
                | Some name \<Rightarrow>
                    sync_loop session_path wir s rest
                      (st\<lparr>files := (files st)(times_file session_path name \<mapsto> Npy pulses)\<rparr>))))"

definition extract_sync :: "path \<Rightarrow> wiring \<Rightarrow> sync_arrays \<Rightarrow> 'a fs_scheme
    \<Rightarrow> exn option \<times> 'a fs_scheme" where
  "extract_sync session_path wir s st = sync_loop session_path wir s (map fst wir) st"

text \<open>
  The pulse times of a line as the specification words them: the three arrays are the
  columns of a table of events (time, channel, polarity), and the pulses of the channel
  \<open>c\<close> are the times of the events on that channel whose polarity is +1.
\<close>

definition rising_edge_times :: "sync_arrays \<Rightarrow> int \<Rightarrow> rat list" where
  "rising_edge_times s c =
     map fst (filter (\<lambda>(t, ch, pol). ch = c \<and> pol = 1)
       (zip (sync_times s) (zip (sync_channels s) (sync_polarities s))))"

section \<open>The probe loop (lines 96 to 347)\<close>

definition raw_dir :: "path \<Rightarrow> path" where
  "raw_dir session_path = join session_path ''raw_ephys_data''"

definition alf_dir :: "settings \<Rightarrow> path \<Rightarrow> string \<Rightarrow> path" where
  "alf_dir cfg session_path this_probe = join session_path (this_probe @ id_str cfg)"

definition sorter_dir :: "settings \<Rightarrow> path \<Rightarrow> path" where
  "sorter_dir cfg probe_path = join probe_path (SPIKE_SORTER cfg @ id_str cfg)"

definition marker :: "path \<Rightarrow> path" where
  "marker session_path = join session_path ''process_me.flag''"

text \<open>
  Lines 121 to 125: the compressed recording when the probe's directory has a
  \<^verbatim>\<open>.cbin\<close> file, the SpikeGLX stream named after the last character of the probe's name
  otherwise (IndexError when the name is empty).
\<close>

definition load_recording :: "'r world \<Rightarrow> path \<Rightarrow> string \<Rightarrow> exn + 'r" where
  "load_recording w probe_path this_probe =
     (if length (glob w probe_path ''*.cbin'') > 0 then Inr (read_cbin_ibl w probe_path)
      else if this_probe = [] then Inl IndexError
      else Inr (read_spikeglx w probe_path (''imec'' @ [last this_probe] @ ''.ap'')))"

text \<open>
  The handler of lines 226 to 238: the text of the exception goes to
  \<^verbatim>\<open>error_log.txt\<close>, then \<^verbatim>\<open>shutil.rmtree\<close> deletes the sorter's folder and the loop
  continues. \<^verbatim>\<open>shutil.rmtree\<close> is called without \<^verbatim>\<open>ignore_errors\<close>, so it raises
  FileNotFoundError when the folder does not exist, and nothing catches that.
\<close>

definition sorter_failed :: "path \<Rightarrow> path \<Rightarrow> string \<Rightarrow> string \<Rightarrow> 'r state
    \<Rightarrow> exn option \<times> 'r state" where
  "sorter_failed probe_path out this_probe err st =
     (let st1 = st\<lparr>files := (files st)(join probe_path ''error_log.txt'' \<mapsto> Text err),
                   trace := trace st @ [SorterFailed this_probe err]\<rparr>
      in if out \<in> dirs st1 then (None, rmtree out st1)
         else (Some (FileNotFoundError out), st1))"

text \<open>
  Lines 240 to 343, after the sorter has returned. \<^verbatim>\<open>glob(...)[0]\<close> raises IndexError on
  an empty result. The directory of line 277 is the one that line 104 tests; when it is
  not a directory, \<^verbatim>\<open>os.mkdir\<close> makes it, and raises FileExistsError when a file has that
  path.
\<close>

definition post_sort :: "settings \<Rightarrow> wiring \<Rightarrow> 'r world \<Rightarrow> path \<Rightarrow> nat \<Rightarrow> string
    \<Rightarrow> 'r state \<Rightarrow> exn option \<times> 'r state" where
  "post_sort cfg wir w session_path i this_probe st =
     (let bin_path = join (raw_dir session_path) this_probe
      in case glob w bin_path ''*ap.*bin'' of
        [] \<Rightarrow> (Some IndexError, st)
      | ap_file # _ \<Rightarrow>
     (case glob w bin_path ''*ap.meta'' of
        [] \<Rightarrow> (Some IndexError, st)
      | meta_file # _ \<Rightarrow>
     (let st1 = st\<lparr>trace := trace st @ [PreExport this_probe]\<rparr>
      in case pre_export w bin_path of
        Some e \<Rightarrow> (Some (Collaborator e), st1)
      | None \<Rightarrow>
     (let alf_path = alf_dir cfg session_path this_probe
      in if alf_path \<notin> dirs st1 \<and> files st1 alf_path \<noteq> None
         then (Some (FileExistsError alf_path), st1)
         else
     (let st2 = st1\<lparr>dirs := insert alf_path (dirs st1),
                    trace := trace st1 @ [ExportAlf this_probe]\<rparr>
      in case export_alf w bin_path of
        Some e \<Rightarrow> (Some (Collaborator e), st2)
      | None \<Rightarrow>
     (case extract_sync session_path wir (sync_npy w session_path) st2 of
        (Some e, st3) \<Rightarrow> (Some e, st3)
      | (None, st3) \<Rightarrow>
          (let sorter_out_path = join (sorter_dir cfg bin_path) ''sorter_output'';
               st4 = st3\<lparr>files := (files st3)(join sorter_out_path ''recording.dat'' := None)\<rparr>
           in (None, st4\<lparr>probe_done := (probe_done st4)[i := True]\<rparr>))))))))"

text \<open>
  The body of the loop for the probe of index \<open>i\<close> and name \<open>this_probe\<close> (lines 100 to
  343). The result is \<open>None\<close> when the loop goes on to the next probe, and the exception when
  one leaves the loop.
\<close>

definition process_probe :: "settings \<Rightarrow> wiring \<Rightarrow> 'r world \<Rightarrow> path \<Rightarrow> nat \<Rightarrow> string
    \<Rightarrow> 'r state \<Rightarrow> exn option \<times> 'r state" where
  "process_probe cfg wir w session_path i this_probe st =
     (let probe_path = join (raw_dir session_path) this_probe
      in if alf_dir cfg session_path this_probe \<in> dirs st
         then (None, st\<lparr>probe_done := (probe_done st)[i := True]\<rparr>)
         else
     (let st1 = st\<lparr>trace := trace st @
                  [EphysSyncPulses this_probe, EphysPulses this_probe, Conditioning this_probe]\<rparr>
      in case bind_exn (load_recording w probe_path this_probe)
                (condition (si_lib w) (notch_filter_json w probe_path)) of
        Inl e \<Rightarrow> (Some e, st1)
      | Inr env \<Rightarrow>
     (let out = sorter_dir cfg probe_path;
          st2 = st1\<lparr>trace := trace st1 @ [RunSorter this_probe (rec_final env)]\<rparr>
      in case run_sorter w (SPIKE_SORTER cfg) (rec_final env) out of
        Raised err created \<Rightarrow>
          sorter_failed probe_path out this_probe err
            (st2\<lparr>dirs := (if created then insert out (dirs st2) else dirs st2)\<rparr>)
      | Sorted \<Rightarrow>
          post_sort cfg wir w session_path i this_probe
            (st2\<lparr>dirs := insert out (insert (join out ''sorter_output'') (dirs st2))\<rparr>))))"

text \<open>The loop of line 99 over \<^verbatim>\<open>enumerate(probes)\<close>, from the index \<open>i\<close> on.\<close>

fun probe_loop :: "settings \<Rightarrow> wiring \<Rightarrow> 'r world \<Rightarrow> path \<Rightarrow> nat \<Rightarrow> string list
    \<Rightarrow> 'r state \<Rightarrow> exn option \<times> 'r state" where
  "probe_loop cfg wir w session_path i [] st = (None, st)"
| "probe_loop cfg wir w session_path i (this_probe # rest) st =
     (case process_probe cfg wir w session_path i this_probe st of
        (Some e, st') \<Rightarrow> (Some e, st')
      | (None, st') \<Rightarrow> probe_loop cfg wir w session_path (Suc i) rest st')"

text \<open>
  Lines 97 to 347 for the session at \<open>session_path\<close>: the probes are the entries of the raw-data
  directory that match \<^verbatim>\<open>probe*\<close>, \<^verbatim>\<open>probe_done\<close> starts all false, and after the loop the
  marker is removed when \<^verbatim>\<open>np.sum(probe_done) == len(probes)\<close>. \<^verbatim>\<open>os.remove\<close> raises
  FileNotFoundError when the marker is not there.
\<close>

definition process_session :: "settings \<Rightarrow> wiring \<Rightarrow> 'r world \<Rightarrow> path \<Rightarrow> 'r state
    \<Rightarrow> exn option \<times> 'r state" where
  "process_session cfg wir w session_path st0 =
     (let probes = glob w (raw_dir session_path) ''probe*'';
          st = st0\<lparr>probe_done := replicate (length probes) False\<rparr>
      in case probe_loop cfg wir w session_path 0 probes st of
        (Some e, st') \<Rightarrow> (Some e, st')
      | (None, st') \<Rightarrow>
          if length (filter (\<lambda>b. b) (probe_done st')) = length probes
          then (if files st' (marker session_path) = None
                then (Some (FileNotFoundError (marker session_path)), st')
                else (None, st'\<lparr>files := (files st')(marker session_path := None)\<rparr>))
          else (None, st'))"

section \<open>The states of a probe that the specification names\<close>

text \<open>
  The script keeps one flag per probe, \<^verbatim>\<open>probe_done[i]\<close>. The specification speaks of the
  states \<^verbatim>\<open>done\<close> and \<^verbatim>\<open>sorting-failed\<close> and calls both terminal. A probe is
  sorting-failed in a run when the handler of the sorter's exception ran for it.
\<close>

definition sorting_failed :: "'r state \<Rightarrow> string \<Rightarrow> bool" where
  "sorting_failed st this_probe \<longleftrightarrow>
     list_ex (\<lambda>e. case e of SorterFailed n err \<Rightarrow> n = this_probe | _ \<Rightarrow> False) (trace st)"

definition terminal :: "'r state \<Rightarrow> nat \<Rightarrow> string \<Rightarrow> bool" where
  "terminal st k this_probe \<longleftrightarrow> probe_done st ! k \<or> sorting_failed st this_probe"

section \<open>A concrete library and session\<close>

text \<open>
  Recordings as the terms that the calls build: every function of the library is a
  constructor, so two recordings are equal only when the same calls made them. The
  detector labels three channels, differently on a filtered and on a referenced signal.
\<close>

datatype sig =
    Raw string
  | Highpass sig string string
  | Shifted sig
  | Comref sig
  | Interpolated sig "chan list"
  | Shank sig int
  | Destriped sig
  | Merged "sig list" "chan list"
  | Notched sig rat rat

definition demo_si :: "sig si" where
  "demo_si =
     \<lparr>highpass_filter = Highpass,
      phase_shift = Shifted,
      common_reference = Comref,
      detect_bad_channels = (\<lambda>r a. case r of
          Highpass _ _ _ \<Rightarrow> ([''AP0'', ''AP2''], [''dead'', ''good'', ''out''])
        | Comref _ \<Rightarrow> ([''AP1''], [''good'', ''noise'', ''good''])
        | _ \<Rightarrow> ([], [''good'', ''good'', ''good''])),
      get_channel_ids = (\<lambda>r. [''AP0'', ''AP1'', ''AP2'']),
      interpolate_bad_channels = Interpolated,
      get_property_group = (\<lambda>r. [0, 0, 0]),
      split_by_group = (\<lambda>r. [(0, Shank r 0)]),
      highpass_spatial_filter = Destriped,
      aggregate_channels = Merged,
      notch_filter = Notched\<rparr>"

definition demo_notch :: notch_config where
  "demo_notch = \<lparr>notch_FREQ = [50, 100], notch_Q = [30, 20]\<rparr>"

definition demo_filtered :: sig where
  "demo_filtered = Highpass (Raw ''probe00'') ''bessel'' ''float32''"

definition demo_destriped :: sig where
  "demo_destriped =
     Destriped (Interpolated (Shifted demo_filtered) [''AP0'', ''AP1'', ''AP2''])"

definition demo_env :: "sig \<Rightarrow> sig cond_env" where
  "demo_env final =
     \<lparr>rec_filtered = demo_filtered, rec_shifted = Shifted demo_filtered,
      rec_comref = Comref demo_filtered,
      prec_dead_ch = (1, 3), dead_channel_ids = [''AP0''],
      prec_out_ch = (1, 3), out_channel_ids = [''AP2''],
      prec_noise_ch = (1, 3), noisy_channel_ids = [''AP1''],
      rec_interpolated = Interpolated (Shifted demo_filtered) [''AP0'', ''AP1'', ''AP2''],
      rec_destriped = demo_destriped, rec_final = final\<rparr>"

text \<open>
  The reading of the two passes in the data model of the specification, with the signals
  as parameters: the first pass, on \<open>sig_a\<close>, gives the dead and the outside channels, the
  second, on \<open>sig_b\<close>, the noisy ones.
\<close>

definition passes_on :: "'r si \<Rightarrow> 'r \<Rightarrow> 'r \<Rightarrow> 'r cond_env \<Rightarrow> bool" where
  "passes_on lib sig_a sig_b env \<longleftrightarrow>
     bool_index (get_channel_ids lib sig_a)
       (labelled ''dead'' (snd (detect_bad_channels lib sig_a pass_a_args)))
       = Inr (dead_channel_ids env) \<and>
     bool_index (get_channel_ids lib sig_a)
       (labelled ''out'' (snd (detect_bad_channels lib sig_a pass_a_args)))
       = Inr (out_channel_ids env) \<and>
     bool_index (get_channel_ids lib sig_b)
       (labelled ''noise'' (snd (detect_bad_channels lib sig_b pass_b_args)))
       = Inr (noisy_channel_ids env)"

text \<open>
  A wiring as the code needs it: the keys are pin names that end in the number of the
  line, the values are the logical names; the reference line \<^verbatim>\<open>imec_sync\<close> is on pin 0.
  Five events: four rising edges and one falling edge.
\<close>

definition demo_wiring :: wiring where
  "demo_wiring = [(''P0.0'', ''imec_sync''), (''P0.1'', ''camera''), (''P0.2'', ''lick'')]"

definition demo_sync :: sync_arrays where
  "demo_sync = \<lparr>sync_times = [1, 2, 3, 4, 5], sync_polarities = [1, - 1, 1, 1, 1],
                 sync_channels = [1, 1, 2, 1, 0]\<rparr>"

definition demo_fs :: fs where
  "demo_fs = \<lparr>dirs = {[''session'']}, files = Map.empty\<rparr>"

definition demo_fs_synced :: fs where
  "demo_fs_synced =
     \<lparr>dirs = {[''session'']},
      files = [[''session'', ''imec_sync.times.npy''] \<mapsto> Npy [5],
               [''session'', ''camera.times.npy''] \<mapsto> Npy [1, 4],
               [''session'', ''lick.times.npy''] \<mapsto> Npy [3]]\<rparr>"

definition demo_cfg :: settings where
  "demo_cfg = \<lparr>SPIKE_SORTER = ''kilosort2_5'', IDENTIFIER = ''v1''\<rparr>"

text \<open>
  A session with the probes \<^verbatim>\<open>probe00\<close> and \<^verbatim>\<open>probe01\<close>, no notch file and no compressed
  recording; the argument gives what the sorter does for an output folder.
\<close>

definition demo_world :: "(path \<Rightarrow> sorter_result) \<Rightarrow> sig world" where
  "demo_world sorter =
     \<lparr>si_lib = demo_si,
      glob = (\<lambda>dir pat.
         if pat = ''probe*'' then [''probe00'', ''probe01'']
         else if pat = ''*ap.*bin'' then [''run_g0_t0.imec.ap.bin'']
         else if pat = ''*ap.meta'' then [''run_g0_t0.imec.ap.meta'']
         else []),
      read_cbin_ibl = (\<lambda>p. Raw (last p)),
      read_spikeglx = (\<lambda>p stream. Raw (last p)),
      notch_filter_json = (\<lambda>p. None),
      run_sorter = (\<lambda>name r out. sorter out),
      pre_export = (\<lambda>p. None),
      export_alf = (\<lambda>p. None),
      sync_npy = (\<lambda>p. demo_sync)\<rparr>"

definition demo_sorter_dir :: "string \<Rightarrow> path" where
  "demo_sorter_dir this_probe = [''session'', ''raw_ephys_data'', this_probe, ''kilosort2_5_v1'']"

text \<open>The sorter raises on \<^verbatim>\<open>probe01\<close>, after it has created its output folder.\<close>

definition sorter_fails_01 :: "path \<Rightarrow> sorter_result" where
  "sorter_fails_01 out =
     (if out = demo_sorter_dir ''probe01'' then Raised ''out of memory'' True else Sorted)"

text \<open>The sorter raises on \<^verbatim>\<open>probe00\<close>, before it has created its output folder.\<close>

definition sorter_fails_early_00 :: "path \<Rightarrow> sorter_result" where
  "sorter_fails_early_00 out =
     (if out = demo_sorter_dir ''probe00'' then Raised ''not installed'' False else Sorted)"

definition sorter_ok :: "path \<Rightarrow> sorter_result" where
  "sorter_ok out = Sorted"

text \<open>
  The session before a run: the marker is there, and \<open>done00\<close> says whether the output
  directory of \<^verbatim>\<open>probe00\<close> exists already.
\<close>

definition demo_state :: "bool \<Rightarrow> sig state" where
  "demo_state done00 =
     \<lparr>dirs = (if done00 then {[''session'', ''probe00_v1'']} else {}) \<union>
        {[''session''], [''session'', ''raw_ephys_data''],
         [''session'', ''raw_ephys_data'', ''probe00''],
         [''session'', ''raw_ephys_data'', ''probe01'']},
      files = [[''session'', ''process_me.flag''] \<mapsto> Text []],
      probe_done = [], trace = []\<rparr>"

section \<open>Properties of the conditioning chain\<close>

lemma bind_exn_Inr_iff:
  "bind_exn m f = Inr y \<longleftrightarrow> (\<exists>x. m = Inr x \<and> f x = Inr y)"
  by (cases m) (simp_all add: bind_exn_def)

lemma bool_index_set:
  assumes "bool_index a msk = Inr xs"
  shows "set xs = {a ! j | j. j < length a \<and> j < length msk \<and> msk ! j}"
proof -
  from assms have xs: "xs = map fst (filter snd (zip a msk))"
    by (auto simp: bool_index_def split: if_splits)
  show ?thesis
    unfolding xs
    by (auto simp: set_zip image_iff) force
qed

lemma condition_fields:
  assumes "condition lib notch raw = Inr env"
  shows "rec_filtered env = highpass_filter lib raw ''bessel'' ''float32''"
    and "rec_shifted env = phase_shift lib (rec_filtered env)"
    and "rec_comref env = common_reference lib (rec_filtered env)"
    and "bool_index (get_channel_ids lib (rec_filtered env))
           (labelled ''dead'' (snd (detect_bad_channels lib (rec_filtered env) pass_a_args)))
         = Inr (dead_channel_ids env)"
    and "bool_index (get_channel_ids lib (rec_filtered env))
           (labelled ''out'' (snd (detect_bad_channels lib (rec_filtered env) pass_a_args)))
         = Inr (out_channel_ids env)"
    and "bool_index (get_channel_ids lib (rec_comref env))
           (labelled ''noise'' (snd (detect_bad_channels lib (rec_comref env) pass_b_args)))
         = Inr (noisy_channel_ids env)"
    and "prec_dead_ch env
         = class_fraction ''dead'' (snd (detect_bad_channels lib (rec_filtered env) pass_a_args))"
    and "prec_out_ch env
         = class_fraction ''out'' (snd (detect_bad_channels lib (rec_filtered env) pass_a_args))"
    and "prec_noise_ch env
         = class_fraction ''noise'' (snd (detect_bad_channels lib (rec_comref env) pass_b_args))"
    and "rec_interpolated env = interpolate_bad_channels lib (rec_shifted env)
           (dead_channel_ids env @ noisy_channel_ids env @ out_channel_ids env)"
    and "destripe lib (rec_interpolated env) = Inr (rec_destriped env)"
    and "rec_final env = notch_stage lib notch (rec_destriped env)"
  using assms by (auto simp: condition_def Let_def bind_exn_Inr_iff)

lemma demo_condition:
  "condition demo_si None (Raw ''probe00'') = Inr (demo_env demo_destriped)"
  by (simp add: condition_def demo_si_def demo_env_def demo_filtered_def demo_destriped_def
      bind_exn_def bool_index_def labelled_def pass_a_args_def pass_b_args_def destripe_def
      notch_stage_def class_fraction_def Let_def)

lemma demo_condition_notch:
  "condition demo_si (Some demo_notch) (Raw ''probe00'')
   = Inr (demo_env (Notched (Notched demo_destriped 50 30) 100 20))"
  by (simp add: condition_def demo_si_def demo_env_def demo_filtered_def demo_destriped_def
      bind_exn_def bool_index_def labelled_def pass_a_args_def pass_b_args_def destripe_def
      notch_stage_def class_fraction_def Let_def demo_notch_def)

text \<open>
  C4. Whenever the chain produces its result for a loaded recording: the phase-shift
  correction takes the high-pass-filtered signal, the common-average reference takes that
  same filtered signal (not the shifted one), and the interpolation of the bad channels
  takes the phase-shifted signal.
\<close>

theorem conditioning_branches:
  assumes "condition lib notch raw = Inr env"
  shows "rec_shifted env = phase_shift lib (highpass_filter lib raw ''bessel'' ''float32'')
       \<and> rec_comref env = common_reference lib (highpass_filter lib raw ''bessel'' ''float32'')
       \<and> rec_interpolated env =
           interpolate_bad_channels lib
             (phase_shift lib (highpass_filter lib raw ''bessel'' ''float32''))
             (dead_channel_ids env @ noisy_channel_ids env @ out_channel_ids env)"
  using condition_fields(1,2,3,10)[OF assms] by simp

theorem conditioning_branches_witness:
  "condition demo_si None (Raw ''probe00'') = Inr (demo_env demo_destriped)
   \<and> rec_shifted (demo_env demo_destriped)
       = Shifted (Highpass (Raw ''probe00'') ''bessel'' ''float32'')
   \<and> rec_comref (demo_env demo_destriped)
       = Comref (Highpass (Raw ''probe00'') ''bessel'' ''float32'')
   \<and> rec_comref (demo_env demo_destriped)
       \<noteq> Comref (Shifted (Highpass (Raw ''probe00'') ''bessel'' ''float32''))
   \<and> rec_interpolated (demo_env demo_destriped)
       = Interpolated (Shifted (Highpass (Raw ''probe00'') ''bessel'' ''float32''))
           [''AP0'', ''AP1'', ''AP2'']"
proof -
  have "rec_shifted (demo_env demo_destriped)
          = Shifted (Highpass (Raw ''probe00'') ''bessel'' ''float32'')
      \<and> rec_comref (demo_env demo_destriped)
          = Comref (Highpass (Raw ''probe00'') ''bessel'' ''float32'')
      \<and> rec_interpolated (demo_env demo_destriped)
          = Interpolated (Shifted (Highpass (Raw ''probe00'') ''bessel'' ''float32''))
              [''AP0'', ''AP1'', ''AP2'']"
    using conditioning_branches[OF demo_condition]
    by (simp add: demo_si_def demo_env_def)
  then show ?thesis
    using demo_condition by simp
qed

text \<open>
  C5. The list of identifiers that the interpolation receives is the concatenation of the
  dead, the noisy and the outside identifiers, so its set is their union, and each of the
  three is exactly the set of channels that carry the label in the pass that gives it.
\<close>

theorem interpolation_targets_union:
  assumes "condition lib notch raw = Inr env"
  shows "\<exists>bad. rec_interpolated env = interpolate_bad_channels lib (rec_shifted env) bad
       \<and> set bad = set (dead_channel_ids env) \<union> set (noisy_channel_ids env)
                     \<union> set (out_channel_ids env)
       \<and> set (dead_channel_ids env) =
           {get_channel_ids lib (rec_filtered env) ! j | j.
              j < length (get_channel_ids lib (rec_filtered env)) \<and>
              j < length (snd (detect_bad_channels lib (rec_filtered env) pass_a_args)) \<and>
              snd (detect_bad_channels lib (rec_filtered env) pass_a_args) ! j = ''dead''}
       \<and> set (out_channel_ids env) =
           {get_channel_ids lib (rec_filtered env) ! j | j.
              j < length (get_channel_ids lib (rec_filtered env)) \<and>
              j < length (snd (detect_bad_channels lib (rec_filtered env) pass_a_args)) \<and>
              snd (detect_bad_channels lib (rec_filtered env) pass_a_args) ! j = ''out''}
       \<and> set (noisy_channel_ids env) =
           {get_channel_ids lib (rec_comref env) ! j | j.
              j < length (get_channel_ids lib (rec_comref env)) \<and>
              j < length (snd (detect_bad_channels lib (rec_comref env) pass_b_args)) \<and>
              snd (detect_bad_channels lib (rec_comref env) pass_b_args) ! j = ''noise''}"
proof -
  have sel: "set xs = {a ! j | j. j < length a \<and> j < length ls \<and> ls ! j = l}"
    if "bool_index a (labelled l ls) = Inr xs" for a :: "chan list" and l ls xs
    using bool_index_set[OF that] by (auto simp: labelled_def)
  let ?bad = "dead_channel_ids env @ noisy_channel_ids env @ out_channel_ids env"
  have "rec_interpolated env = interpolate_bad_channels lib (rec_shifted env) ?bad"
    by (rule condition_fields(10)[OF assms])
  moreover have "set ?bad = set (dead_channel_ids env) \<union> set (noisy_channel_ids env)
                     \<union> set (out_channel_ids env)"
    by auto
  ultimately show ?thesis
    using sel[OF condition_fields(4)[OF assms]] sel[OF condition_fields(5)[OF assms]]
      sel[OF condition_fields(6)[OF assms]]
    by blast
qed

theorem interpolation_targets_union_witness:
  "condition demo_si None (Raw ''probe00'') = Inr (demo_env demo_destriped)
   \<and> rec_interpolated (demo_env demo_destriped)
       = Interpolated (Shifted demo_filtered) [''AP0'', ''AP1'', ''AP2'']
   \<and> set [''AP0'', ''AP1'', ''AP2''] = {''AP0''} \<union> {''AP1''} \<union> {''AP2''}"
proof -
  from interpolation_targets_union[OF demo_condition]
  obtain bad where a: "rec_interpolated (demo_env demo_destriped)
        = interpolate_bad_channels demo_si (rec_shifted (demo_env demo_destriped)) bad"
    and b: "set bad = set (dead_channel_ids (demo_env demo_destriped))
        \<union> set (noisy_channel_ids (demo_env demo_destriped))
        \<union> set (out_channel_ids (demo_env demo_destriped))"
    by (elim exE conjE) (rule that; assumption)
  from a have bad: "bad = [''AP0'', ''AP1'', ''AP2'']"
    by (simp add: demo_si_def demo_env_def)
  have "set [''AP0'', ''AP1'', ''AP2''] = {''AP0''} \<union> {''AP1''} \<union> {''AP2''}"
    using b unfolding bad by (simp add: demo_env_def)
  then show ?thesis
    using demo_condition by (simp add: demo_env_def)
qed



text \<open>
  C7. The data model of the specification has the first pass (dead and outside channels) on
  the common-average-referenced signal and the second (noisy channels) on the filtered
  one. The code has them the other way round: with the concrete library, where the detector
  finds a dead channel on the filtered signal only, the reading of the data model fails.
\<close>

theorem data_model_passes_counterexample:
  "condition demo_si None (Raw ''probe00'') = Inr (demo_env demo_destriped)
   \<and> \<not> passes_on demo_si (rec_comref (demo_env demo_destriped))
          (rec_filtered (demo_env demo_destriped)) (demo_env demo_destriped)"
proof -
  have "\<not> passes_on demo_si (rec_comref (demo_env demo_destriped))
          (rec_filtered (demo_env demo_destriped)) (demo_env demo_destriped)"
    by (simp add: passes_on_def demo_si_def demo_env_def bool_index_def labelled_def)
  then show ?thesis
    using demo_condition by simp
qed

text \<open>
  C7 as amended: the first pass, which gives the dead and the outside channels, runs on the
  filtered signal, and the second, which gives the noisy channels with the fixed threshold
  3, runs on the common-average-referenced signal.
\<close>

theorem code_passes:
  assumes "condition lib notch raw = Inr env"
  shows "passes_on lib (rec_filtered env) (rec_comref env) env
       \<and> rec_filtered env = highpass_filter lib raw ''bessel'' ''float32''
       \<and> rec_comref env = common_reference lib (rec_filtered env)
       \<and> std_mad_threshold pass_b_args = Some 3"
  using condition_fields[OF assms]
  by (simp add: passes_on_def pass_b_args_def)

theorem code_passes_witness:
  "condition demo_si None (Raw ''probe00'') = Inr (demo_env demo_destriped)
   \<and> passes_on demo_si demo_filtered (Comref demo_filtered) (demo_env demo_destriped)"
proof -
  have "passes_on demo_si demo_filtered (Comref demo_filtered) (demo_env demo_destriped)"
    using code_passes[OF demo_condition]
    by (simp add: demo_env_def demo_si_def)
  then show ?thesis
    using demo_condition by simp
qed

lemma apply_notch_foldl:
  "apply_notch lib r pairs = foldl (\<lambda>r (freq, q). notch_filter lib r freq q) r pairs"
  by (induction pairs arbitrary: r) auto

lemma apply_notch_snoc:
  "apply_notch lib r (pairs @ [(freq, q)]) = notch_filter lib (apply_notch lib r pairs) freq q"
  by (simp add: apply_notch_foldl)

text \<open>
  C9. Without a notch configuration the final recording is the destriped recording itself.
  With one, the final recording is the destriped recording put through one notch filter
  per (frequency, quality factor) pair of the file, from the first pair to the last, each
  filter taking the result of the one before.
\<close>

theorem notch_stage_sequential:
  assumes "condition lib notch raw = Inr env"
  shows "(notch = None \<longrightarrow> rec_final env = rec_destriped env)
       \<and> (\<forall>cfg. notch = Some cfg \<longrightarrow>
            rec_final env =
              foldl (\<lambda>r (freq, q). notch_filter lib r freq q) (rec_destriped env)
                (zip (notch_FREQ cfg) (notch_Q cfg)))"
  using condition_fields(12)[OF assms]
  by (simp add: notch_stage_def apply_notch_foldl)

theorem notch_stage_sequential_witness:
  "condition demo_si (Some demo_notch) (Raw ''probe00'')
     = Inr (demo_env (Notched (Notched demo_destriped 50 30) 100 20))
   \<and> rec_final (demo_env (Notched (Notched demo_destriped 50 30) 100 20))
     = Notched (Notched (rec_destriped (demo_env (Notched (Notched demo_destriped 50 30) 100 20)))
         50 30) 100 20
   \<and> condition demo_si None (Raw ''probe00'') = Inr (demo_env demo_destriped)
   \<and> rec_final (demo_env demo_destriped) = rec_destriped (demo_env demo_destriped)"
proof -
  have "rec_final (demo_env (Notched (Notched demo_destriped 50 30) 100 20))
     = Notched (Notched (rec_destriped (demo_env (Notched (Notched demo_destriped 50 30) 100 20)))
         50 30) 100 20"
    using notch_stage_sequential[OF demo_condition_notch]
    by (simp add: demo_notch_def demo_si_def)
  moreover have "rec_final (demo_env demo_destriped) = rec_destriped (demo_env demo_destriped)"
    using notch_stage_sequential[OF demo_condition] by simp
  ultimately show ?thesis
    using demo_condition demo_condition_notch by simp
qed


text \<open>
  The branch of line 163: a recording whose channels carry at most one group label is
  never split; the script applies the spatial filter to the whole recording.
\<close>

lemma destripe_single_shank:
  assumes "length (remdups (get_property_group lib r)) \<le> 1"
  shows "destripe lib r = Inr (highpass_spatial_filter lib r)"
  using assms by (simp add: destripe_def)

text \<open>
  With several group labels, the script filters the sub-recording of every group and merges
  the results under the identifiers of the input; it needs the labels to be
  \<open>0, 1, \<dots>\<close> up to the number of groups, since it indexes the dictionary by position.
\<close>

lemma destripe_two_shanks:
  assumes "length (remdups (get_property_group lib r)) > 1"
      and "split_by_group lib r = [(0, a), (1, b)]"
  shows "destripe lib r =
     Inr (aggregate_channels lib [highpass_spatial_filter lib a, highpass_spatial_filter lib b]
            (get_channel_ids lib r))"
  using assms by (simp add: destripe_def bind_exn_def upt_rec)

section \<open>Properties of the synchronisation timestamps\<close>

lemma mask_select_events:
  assumes "length cs = length ts" "length ps = length ts"
  shows "map fst (filter snd (zip ts (map (\<lambda>(x, y). x \<and> y) (zip (map f cs) (map g ps)))))
       = map fst (filter (\<lambda>(t, ch, pol). f ch \<and> g pol) (zip ts (zip cs ps)))"
proof -
  have "length ts = length cs" "length cs = length ps"
    using assms by simp_all
  then show ?thesis
    by (induction ts cs ps rule: list_induct3) auto
qed

lemma nidq_pulses_events:
  assumes "length (sync_channels s) = length (sync_times s)"
      and "length (sync_polarities s) = length (sync_times s)"
  shows "nidq_pulses s c = Inr (rising_edge_times s c)"
  using assms mask_select_events[OF assms, of "\<lambda>x. x = c" "\<lambda>p. p = 1"]
  by (simp add: nidq_pulses_def broadcast_and_def bind_exn_def bool_index_def
      rising_edge_times_def)

lemma times_file_inject:
  "times_file session_path v = times_file session_path v' \<longleftrightarrow> v = v'"
  by (simp add: times_file_def join_def)

lemma sync_loop_frame:
  assumes "sync_loop session_path wir s keys st = (x, st')"
      and "files st' p \<noteq> files st p"
  shows "\<exists>k \<in> set keys. k \<noteq> ''imec_sync'' \<and>
           (\<exists>v. map_of wir k = Some v \<and> p = times_file session_path v)"
  using assms
proof (induction keys arbitrary: st)
  case Nil
  then show ?case by simp
next
  case (Cons k keys)
  show ?case
  proof (cases "k = ''imec_sync''")
    case True
    with Cons.prems have "sync_loop session_path wir s keys st = (x, st')"
      by simp
    from Cons.IH[OF this Cons.prems(2)] show ?thesis by auto
  next
    case False
    show ?thesis
    proof (cases "\<exists>c pulses v. line_number k = Inr c \<and> nidq_pulses s c = Inr pulses
                    \<and> map_of wir k = Some v")
      case True
      then obtain c pulses v where h: "line_number k = Inr c" "nidq_pulses s c = Inr pulses"
        "map_of wir k = Some v" by blast
      let ?st1 = "st\<lparr>files := (files st)(times_file session_path v \<mapsto> Npy pulses)\<rparr>"
      from Cons.prems(1) False h
      have run: "sync_loop session_path wir s keys ?st1 = (x, st')"
        by simp
      show ?thesis
      proof (cases "files st' p = files ?st1 p")
        case True
        with Cons.prems(2) have "p = times_file session_path v"
          by (auto split: if_splits)
        with False h show ?thesis by auto
      next
        case False
        from Cons.IH[OF run False] show ?thesis by auto
      qed
    next
      case stop: False
      with Cons.prems(1) False have "st' = st"
        by (auto split: sum.splits option.splits)
      with Cons.prems(2) show ?thesis by simp
    qed
  qed
qed

lemma sync_loop_written:
  assumes "sync_loop session_path wir s keys st = (None, st')"
      and "k \<in> set keys" "k \<noteq> ''imec_sync''" "map_of wir k = Some v"
      and "\<forall>k' \<in> set keys. k' \<noteq> k \<longrightarrow> map_of wir k' \<noteq> Some v"
  shows "\<exists>c pulses. line_number k = Inr c \<and> nidq_pulses s c = Inr pulses
           \<and> files st' (times_file session_path v) = Some (Npy pulses)"
  using assms
proof (induction keys arbitrary: st)
  case Nil
  then show ?case by simp
next
  case (Cons a keys)
  have others: "\<forall>k' \<in> set keys. k' \<noteq> k \<longrightarrow> map_of wir k' \<noteq> Some v"
    using Cons.prems(5) by simp
  show ?case
  proof (cases "a = ''imec_sync''")
    case True
    with Cons.prems have run: "sync_loop session_path wir s keys st = (None, st')"
      and "k \<in> set keys" by auto
    from Cons.IH[OF run \<open>k \<in> set keys\<close> Cons.prems(3,4) others] show ?thesis .
  next
    case False
    with Cons.prems(1) obtain c pulses u where h: "line_number a = Inr c"
        "nidq_pulses s c = Inr pulses" "map_of wir a = Some u"
      by (auto split: sum.splits option.splits)
    let ?st1 = "st\<lparr>files := (files st)(times_file session_path u \<mapsto> Npy pulses)\<rparr>"
    from Cons.prems(1) False h
    have run: "sync_loop session_path wir s keys ?st1 = (None, st')"
      by simp
    show ?thesis
    proof (cases "k \<in> set keys")
      case True
      from Cons.IH[OF run True Cons.prems(3,4) others] show ?thesis .
    next
      case False
      with Cons.prems(2) have ak: "a = k" by simp
      with h Cons.prems(4) have uv: "u = v" by simp
      have "files st' (times_file session_path v) = files ?st1 (times_file session_path v)"
      proof (rule ccontr)
        assume "files st' (times_file session_path v) \<noteq> files ?st1 (times_file session_path v)"
        from sync_loop_frame[OF run this]
        obtain k' v' where "k' \<in> set keys" "map_of wir k' = Some v'"
          "times_file session_path v = times_file session_path v'"
          by blast
        then have "k' \<in> set keys" "map_of wir k' = Some v"
          by (simp_all add: times_file_inject)
        with others False show False by auto
      qed
      with h ak uv show ?thesis by simp
    qed
  qed
qed

text \<open>
  A key that ends in the decimal digit \<open>d\<close> is read as the channel \<open>d\<close>. Only the last
  character counts: \<^verbatim>\<open>P0.12\<close> is read as channel 2.
\<close>

lemma line_number_digit:
  assumes "d < 10"
  shows "line_number (p @ [''0123456789'' ! d]) = Inr (int d)"
proof -
  from assms have "d = 0 \<or> d = 1 \<or> d = 2 \<or> d = 3 \<or> d = 4 \<or> d = 5 \<or> d = 6 \<or> d = 7
      \<or> d = 8 \<or> d = 9"
    by arith
  then show ?thesis
    by (elim disjE) (simp_all add: line_number_def digit_of_def)
qed

lemma line_number_last_character: "line_number ''P0.12'' = Inr 2"
  by (simp add: line_number_def digit_of_def)

text \<open>
  What the loop writes, line by line. Let the three arrays have the same length, the wiring
  dictionary have distinct keys and give distinct logical names, and the extraction run to
  its end. Then for every line whose key is not \<^verbatim>\<open>imec_sync\<close> the file of the line holds
  exactly the times of the events on the channel of the line whose polarity is +1; the file
  of a line whose key is \<^verbatim>\<open>imec_sync\<close> is as it was before; and every file that changed
  is the file of a line whose key is not \<^verbatim>\<open>imec_sync\<close>.
\<close>

lemma sync_event_files:
  assumes run: "extract_sync session_path wir s st = (None, st')"
      and keys: "distinct (map fst wir)"
      and names: "distinct (map snd wir)"
      and len: "length (sync_channels s) = length (sync_times s)"
               "length (sync_polarities s) = length (sync_times s)"
  shows "(\<forall>(ch_name, name) \<in> set wir.
            if ch_name = ''imec_sync''
            then files st' (times_file session_path name)
                   = files st (times_file session_path name)
            else \<exists>c. line_number ch_name = Inr c \<and>
                   files st' (times_file session_path name)
                     = Some (Npy (rising_edge_times s c)))
       \<and> (\<forall>p. files st' p \<noteq> files st p \<longrightarrow>
            (\<exists>(ch_name, name) \<in> set wir.
               ch_name \<noteq> ''imec_sync'' \<and> p = times_file session_path name))"
proof -
  have loop: "sync_loop session_path wir s (map fst wir) st = (None, st')"
    using run by (simp add: extract_sync_def)
  have lookup: "map_of wir k = Some v \<longleftrightarrow> (k, v) \<in> set wir" for k v
    using keys by simp
  have same_name: "k = k'" if "(k, v) \<in> set wir" "(k', v) \<in> set wir" for k k' v
  proof -
    have "inj_on snd (set wir)"
      using names by (simp add: distinct_map)
    from inj_onD[OF this _ that] show ?thesis by simp
  qed
  have changed: "\<exists>(k, v) \<in> set wir. k \<noteq> ''imec_sync'' \<and> p = times_file session_path v"
    if "files st' p \<noteq> files st p" for p
    using sync_loop_frame[OF loop that] by (auto simp: lookup)
  have line: "if k = ''imec_sync''
            then files st' (times_file session_path v) = files st (times_file session_path v)
            else \<exists>c. line_number k = Inr c \<and>
                   files st' (times_file session_path v) = Some (Npy (rising_edge_times s c))"
    if kv: "(k, v) \<in> set wir" for k v
  proof (cases "k = ''imec_sync''")
    case True
    have "files st' (times_file session_path v) = files st (times_file session_path v)"
    proof (rule ccontr)
      assume "files st' (times_file session_path v) \<noteq> files st (times_file session_path v)"
      from changed[OF this] obtain k' v' where "(k', v') \<in> set wir" "k' \<noteq> ''imec_sync''"
        "times_file session_path v = times_file session_path v'"
        by blast
      then have "(k', v) \<in> set wir" "k' \<noteq> ''imec_sync''"
        by (simp_all add: times_file_inject)
      with same_name[OF kv] True show False by blast
    qed
    with True show ?thesis by simp
  next
    case False
    have "k \<in> set (map fst wir)"
      using kv by force
    moreover have "map_of wir k = Some v"
      using kv by (simp add: lookup)
    moreover have "\<forall>k' \<in> set (map fst wir). k' \<noteq> k \<longrightarrow> map_of wir k' \<noteq> Some v"
      using same_name[OF kv] by (auto simp: lookup)
    ultimately obtain c pulses where "line_number k = Inr c" "nidq_pulses s c = Inr pulses"
      "files st' (times_file session_path v) = Some (Npy pulses)"
      using sync_loop_written[OF loop _ False] by blast
    then show ?thesis
      using False nidq_pulses_events[OF len, of c] by simp
  qed
  show ?thesis
    using line changed by blast
qed

text \<open>
  For a pin: the file of a line whose key ends in the digit \<open>d\<close> holds the times of the
  rising edges on channel \<open>d\<close>, and nothing else.
\<close>

lemma sync_pin_line_file:
  assumes run: "extract_sync session_path wir s st = (None, st')"
      and keys: "distinct (map fst wir)"
      and names: "distinct (map snd wir)"
      and len: "length (sync_channels s) = length (sync_times s)"
               "length (sync_polarities s) = length (sync_times s)"
      and line: "(p @ [''0123456789'' ! d], name) \<in> set wir" "d < 10"
  shows "files st' (times_file session_path name) = Some (Npy (rising_edge_times s (int d)))"
proof -
  have "last (p @ [''0123456789'' ! d]) \<noteq> last ''imec_sync''"
    using line(2) line_number_digit[OF line(2), of p]
    by (auto simp: line_number_def digit_of_def split: if_splits)
  then have key: "p @ [''0123456789'' ! d] \<noteq> ''imec_sync''"
    by metis
  from sync_event_files[OF run keys names len] line(1)
  have "if p @ [''0123456789'' ! d] = ''imec_sync''
        then files st' (times_file session_path name) = files st (times_file session_path name)
        else \<exists>c. line_number (p @ [''0123456789'' ! d]) = Inr c \<and>
               files st' (times_file session_path name) = Some (Npy (rising_edge_times s c))"
    by blast
  with key obtain c where "line_number (p @ [''0123456789'' ! d]) = Inr c"
    "files st' (times_file session_path name) = Some (Npy (rising_edge_times s c))"
    by metis
  with line_number_digit[OF line(2), of p] show ?thesis
    by simp
qed

lemma demo_extract_sync:
  "extract_sync [''session''] demo_wiring demo_sync demo_fs = (None, demo_fs_synced)"
  by (simp add: extract_sync_def demo_wiring_def demo_sync_def demo_fs_def demo_fs_synced_def
      line_number_def digit_of_def nidq_pulses_def broadcast_and_def bind_exn_def
      bool_index_def times_file_def join_def)

text \<open>
  C10 (the code departs from the claim). The claim has the reference line \<^verbatim>\<open>imec_sync\<close>
  left out: no file for it. The test of line 315 compares the key of the dictionary with
  \<^verbatim>\<open>imec_sync\<close>, but the keys are the pin names, whose last character line 317 reads as
  the channel number, and \<^verbatim>\<open>imec_sync\<close> is a logical name, a value of the dictionary
  (line 318 names the file by the value). So the test does not hold for the reference
  line: with \<^verbatim>\<open>imec_sync\<close> on pin 0, the loop writes \<^verbatim>\<open>imec_sync.times.npy\<close>, here with
  the one rising edge of channel 0.
\<close>

theorem reference_line_file_written:
  "extract_sync [''session'']
     [(''P0.0'', ''imec_sync''), (''P0.1'', ''camera''), (''P0.2'', ''lick'')] demo_sync demo_fs
     = (None, demo_fs_synced)
   \<and> files demo_fs [''session'', ''imec_sync.times.npy''] = None
   \<and> files demo_fs_synced [''session'', ''imec_sync.times.npy''] = Some (Npy [5])
   \<and> files demo_fs_synced [''session'', ''camera.times.npy''] = Some (Npy [1, 4])
   \<and> files demo_fs_synced [''session'', ''lick.times.npy''] = Some (Npy [3])"
  by (simp add: extract_sync_def demo_sync_def demo_fs_def demo_fs_synced_def
      line_number_def digit_of_def nidq_pulses_def broadcast_and_def bind_exn_def
      bool_index_def times_file_def join_def)

section \<open>Properties of the probe loop\<close>

lemma marker_not_times_file: "marker session_path \<noteq> times_file session_path v"
proof
  assume "marker session_path = times_file session_path v"
  then have "''process_me.flag'' = v @ ''.times.npy''"
    by (simp add: marker_def times_file_def join_def)
  then have "last ''process_me.flag'' = last (v @ ''.times.npy'')"
    by (rule arg_cong)
  then show False by simp
qed

lemma sync_loop_state:
  fixes st :: "'r state"
  assumes "sync_loop session_path wir s keys st = (x, st')"
  shows "dirs st' = dirs st \<and> probe_done st' = probe_done st \<and> trace st' = trace st"
  using assms
  by (induction keys arbitrary: st) (auto split: if_splits sum.splits option.splits)

lemma extract_sync_state:
  fixes st :: "'r state"
  assumes "extract_sync session_path wir s st = (x, st')"
  shows "dirs st' = dirs st \<and> probe_done st' = probe_done st \<and> trace st' = trace st
       \<and> files st' (marker session_path) = files st (marker session_path)"
proof -
  have loop: "sync_loop session_path wir s (map fst wir) st = (x, st')"
    using assms by (simp add: extract_sync_def)
  have "files st' (marker session_path) = files st (marker session_path)"
  proof (rule ccontr)
    assume "files st' (marker session_path) \<noteq> files st (marker session_path)"
    from sync_loop_frame[OF loop this] show False
      using marker_not_times_file by blast
  qed
  with sync_loop_state[OF loop] show ?thesis by simp
qed

lemmas path_defs = join_def raw_dir_def alf_dir_def sorter_dir_def marker_def

lemma sorter_failed_effect:
  assumes "sorter_failed probe_path out this_probe err st = (x, st')"
  shows "probe_done st' = probe_done st"
    and "trace st' = trace st @ [SorterFailed this_probe err]"
    and "x = None \<longleftrightarrow> out \<in> dirs st"
    and "\<not> prefix out d \<Longrightarrow> d \<in> dirs st' \<longleftrightarrow> d \<in> dirs st"
    and "\<not> prefix out p \<Longrightarrow> p \<noteq> join probe_path ''error_log.txt''
           \<Longrightarrow> files st' p = files st p"
    and "x = None \<Longrightarrow> out \<notin> dirs st'"
    and "x = None \<Longrightarrow> \<not> prefix out (join probe_path ''error_log.txt'')
           \<Longrightarrow> files st' (join probe_path ''error_log.txt'') = Some (Text err)"
  using assms
  by (auto simp: sorter_failed_def rmtree_def Let_def split: if_splits)

lemma post_sort_cases:
  assumes "post_sort cfg wir w session_path i this_probe st = (x, st')"
  obtains (stopped) evs where "x \<noteq> None" "dirs st' = dirs st"
      "files st' = files st" "probe_done st' = probe_done st"
      "trace st' = trace st @ evs" "set evs \<subseteq> {PreExport this_probe}"
    | (exported) y st3 where
      "extract_sync session_path wir (sync_npy w session_path)
         (st\<lparr>dirs := insert (alf_dir cfg session_path this_probe) (dirs st),
             trace := trace st @ [PreExport this_probe, ExportAlf this_probe]\<rparr>) = (y, st3)"
      "x = None \<longrightarrow> y = None \<and> st' = st3\<lparr>files := (files st3)
         (join (join (sorter_dir cfg (join (raw_dir session_path) this_probe))
            ''sorter_output'') ''recording.dat'' := None),
         probe_done := (probe_done st3)[i := True]\<rparr>"
      "x \<noteq> None \<longrightarrow> y = x \<and> st' = st3"
    | (export_raised) "x \<noteq> None" "st' = st\<lparr>dirs := insert (alf_dir cfg session_path this_probe) (dirs st),
             trace := trace st @ [PreExport this_probe, ExportAlf this_probe]\<rparr>"
proof (cases "glob w (join (raw_dir session_path) this_probe) ''*ap.*bin'' = []
            \<or> glob w (join (raw_dir session_path) this_probe) ''*ap.meta'' = []")
  case True
  with assms have "x \<noteq> None" "st' = st"
    by (auto simp: post_sort_def Let_def split: list.splits)
  then show ?thesis
    using stopped[of "[]"] by simp
next
  case globs: False
  show ?thesis
  proof (cases "pre_export w (join (raw_dir session_path) this_probe)")
    case (Some e)
    with assms globs have "x \<noteq> None" "st' = st\<lparr>trace := trace st @ [PreExport this_probe]\<rparr>"
      by (auto simp: post_sort_def Let_def split: list.splits)
    then show ?thesis
      using stopped[of "[PreExport this_probe]"] by simp
  next
    case pre: None
    show ?thesis
    proof (cases "alf_dir cfg session_path this_probe \<notin> dirs st
                \<and> files st (alf_dir cfg session_path this_probe) \<noteq> None")
      case True
      with assms globs pre have "x \<noteq> None"
        "st' = st\<lparr>trace := trace st @ [PreExport this_probe]\<rparr>"
        by (auto simp: post_sort_def Let_def split: list.splits)
      then show ?thesis
        using stopped[of "[PreExport this_probe]"] by simp
    next
      case mkdir: False
      show ?thesis
      proof (cases "export_alf w (join (raw_dir session_path) this_probe)")
        case (Some e)
        with assms globs pre mkdir show ?thesis
          by (intro export_raised) (auto simp: post_sort_def Let_def split: list.splits)
      next
        case None
        obtain y st3 where sync: "extract_sync session_path wir (sync_npy w session_path)
           (st\<lparr>dirs := insert (alf_dir cfg session_path this_probe) (dirs st),
               trace := trace st @ [PreExport this_probe, ExportAlf this_probe]\<rparr>) = (y, st3)"
          by (cases "extract_sync session_path wir (sync_npy w session_path)
           (st\<lparr>dirs := insert (alf_dir cfg session_path this_probe) (dirs st),
               trace := trace st @ [PreExport this_probe, ExportAlf this_probe]\<rparr>)") auto
        show ?thesis
        proof (rule exported[OF sync])
          show "x = None \<longrightarrow> y = None \<and> st' = st3\<lparr>files := (files st3)
           (join (join (sorter_dir cfg (join (raw_dir session_path) this_probe))
              ''sorter_output'') ''recording.dat'' := None),
           probe_done := (probe_done st3)[i := True]\<rparr>"
            using assms globs pre mkdir None sync
            by (cases y) (auto simp: post_sort_def Let_def split: list.splits)
          show "x \<noteq> None \<longrightarrow> y = x \<and> st' = st3"
            using assms globs pre mkdir None sync
            by (cases y) (auto simp: post_sort_def Let_def split: list.splits)
        qed
      qed
    qed
  qed
qed

lemma post_sort_effect:
  assumes "post_sort cfg wir w session_path i this_probe st = (x, st')"
  shows "probe_done st' = (if x = None then (probe_done st)[i := True] else probe_done st)
    \<and> files st' (marker session_path) = files st (marker session_path)
    \<and> dirs st \<subseteq> dirs st'
    \<and> dirs st' \<subseteq> insert (alf_dir cfg session_path this_probe) (dirs st)
    \<and> (x = None \<longrightarrow> alf_dir cfg session_path this_probe \<in> dirs st')
    \<and> (\<exists>evs. trace st' = trace st @ evs
          \<and> (\<forall>e \<in> set evs. e = PreExport this_probe \<or> e = ExportAlf this_probe))"
  using assms
proof (cases rule: post_sort_cases)
  case (stopped evs)
  then show ?thesis by auto
next
  case (exported y st3)
  have rec_dat: "join (join (sorter_dir cfg (join (raw_dir session_path) this_probe))
      ''sorter_output'') ''recording.dat'' \<noteq> marker session_path"
    by (simp add: path_defs)
  from extract_sync_state[OF exported(1)] exported(2,3) rec_dat show ?thesis
    by (cases "x = None") auto
next
  case export_raised
  then show ?thesis by auto
qed

lemma process_probe_cases:
  fixes w :: "'r world"
  assumes "process_probe cfg wir w session_path i this_probe st = (x, st')"
  obtains (skipped) "alf_dir cfg session_path this_probe \<in> dirs st" "x = None"
      "st' = st\<lparr>probe_done := (probe_done st)[i := True]\<rparr>"
    | (chain_raised) e where "alf_dir cfg session_path this_probe \<notin> dirs st" "x = Some e"
      "st' = st\<lparr>trace := trace st @
          [EphysSyncPulses this_probe, EphysPulses this_probe, Conditioning this_probe]\<rparr>"
    | (sorter_raised) env :: "'r cond_env" and err created where "alf_dir cfg session_path this_probe \<notin> dirs st"
      "run_sorter w (SPIKE_SORTER cfg) (rec_final env)
         (sorter_dir cfg (join (raw_dir session_path) this_probe)) = Raised err created"
      "sorter_failed (join (raw_dir session_path) this_probe)
         (sorter_dir cfg (join (raw_dir session_path) this_probe)) this_probe err
         (st\<lparr>trace := trace st @
             [EphysSyncPulses this_probe, EphysPulses this_probe, Conditioning this_probe,
              RunSorter this_probe (rec_final env)],
            dirs := (if created
              then insert (sorter_dir cfg (join (raw_dir session_path) this_probe)) (dirs st)
              else dirs st)\<rparr>) = (x, st')"
    | (sorted) env :: "'r cond_env" where "alf_dir cfg session_path this_probe \<notin> dirs st"
      "post_sort cfg wir w session_path i this_probe
         (st\<lparr>trace := trace st @
             [EphysSyncPulses this_probe, EphysPulses this_probe, Conditioning this_probe,
              RunSorter this_probe (rec_final env)],
            dirs := insert (sorter_dir cfg (join (raw_dir session_path) this_probe))
              (insert (join (sorter_dir cfg (join (raw_dir session_path) this_probe))
                 ''sorter_output'') (dirs st))\<rparr>) = (x, st')"
proof (cases "alf_dir cfg session_path this_probe \<in> dirs st")
  case True
  with assms show ?thesis
    by (intro skipped) (auto simp: process_probe_def Let_def)
next
  case fresh: False
  show ?thesis
  proof (cases "bind_exn (load_recording w (join (raw_dir session_path) this_probe) this_probe)
                  (condition (si_lib w)
                     (notch_filter_json w (join (raw_dir session_path) this_probe)))")
    case (Inl e)
    with assms fresh show ?thesis
      by (intro chain_raised[of e]) (auto simp: process_probe_def Let_def)
  next
    case (Inr env)
    show ?thesis
    proof (cases "run_sorter w (SPIKE_SORTER cfg) (rec_final env)
         (sorter_dir cfg (join (raw_dir session_path) this_probe))")
      case Sorted
      with assms fresh Inr show ?thesis
        by (intro sorted[of env]) (auto simp: process_probe_def Let_def)
    next
      case (Raised err created)
      with assms fresh Inr show ?thesis
        by (intro sorter_raised[of env err created]) (auto simp: process_probe_def Let_def)
    qed
  qed
qed

lemma process_probe_effect:
  assumes "process_probe cfg wir w session_path i this_probe st = (x, st')"
  shows "length (probe_done st') = length (probe_done st)
    \<and> (\<forall>j. j \<noteq> i \<longrightarrow> probe_done st' ! j = probe_done st ! j)
    \<and> files st' (marker session_path) = files st (marker session_path)
    \<and> (\<forall>m. alf_dir cfg session_path m \<in> dirs st \<longrightarrow> alf_dir cfg session_path m \<in> dirs st')
    \<and> (\<exists>evs. trace st' = trace st @ evs \<and> (\<forall>e \<in> set evs. event_probe e = this_probe)
          \<and> ((\<exists>err. SorterFailed this_probe err \<in> set evs)
                \<longrightarrow> probe_done st' = probe_done st))"
  using assms
proof (cases rule: process_probe_cases)
  case skipped
  then show ?thesis by simp
next
  case (chain_raised e)
  then show ?thesis by simp
next
  case (sorter_raised env err created)
  let ?out = "sorter_dir cfg (join (raw_dir session_path) this_probe)"
  let ?log = "join (join (raw_dir session_path) this_probe) ''error_log.txt''"
  have np: "\<not> prefix ?out (alf_dir cfg session_path m)" for m
    by (simp add: path_defs)
  have nm: "\<not> prefix ?out (marker session_path)" "marker session_path \<noteq> ?log"
    by (simp_all add: path_defs)
  have no: "alf_dir cfg session_path m \<noteq> ?out" for m
    by (simp add: path_defs)
  note eff = sorter_failed_effect[OF sorter_raised(3)]
  show ?thesis
    using eff(1,2) eff(4)[OF np] eff(5)[OF nm] no
    by auto
next
  case (sorted env)
  let ?out = "sorter_dir cfg (join (raw_dir session_path) this_probe)"
  from post_sort_effect[OF sorted(2)]
  obtain evs where flags: "probe_done st' = (if x = None then (probe_done st)[i := True]
        else probe_done st)"
    and mark: "files st' (marker session_path) = files st (marker session_path)"
    and sub: "dirs st \<subseteq> dirs st'"
    and tr: "trace st' = trace st @
             [EphysSyncPulses this_probe, EphysPulses this_probe, Conditioning this_probe,
              RunSorter this_probe (rec_final env)] @ evs"
    and evs: "\<forall>e \<in> set evs. e = PreExport this_probe \<or> e = ExportAlf this_probe"
    by auto
  have "\<forall>e \<in> set ([EphysSyncPulses this_probe, EphysPulses this_probe,
          Conditioning this_probe, RunSorter this_probe (rec_final env)] @ evs).
          event_probe e = this_probe \<and> (\<forall>err. e \<noteq> SorterFailed this_probe err)"
    using evs by auto
  then have "\<exists>evs. trace st' = trace st @ evs \<and> (\<forall>e \<in> set evs. event_probe e = this_probe)
          \<and> ((\<exists>err. SorterFailed this_probe err \<in> set evs)
                \<longrightarrow> probe_done st' = probe_done st)"
    using tr by blast
  moreover have "length (probe_done st') = length (probe_done st)
    \<and> (\<forall>j. j \<noteq> i \<longrightarrow> probe_done st' ! j = probe_done st ! j)"
    using flags by simp
  moreover have "\<forall>m. alf_dir cfg session_path m \<in> dirs st
      \<longrightarrow> alf_dir cfg session_path m \<in> dirs st'"
    using sub by auto
  ultimately show ?thesis
    using mark by simp
qed

lemma process_probe_skip:
  assumes "process_probe cfg wir w session_path i this_probe st = (x, st')"
      and "alf_dir cfg session_path this_probe \<in> dirs st"
  shows "x = None \<and> trace st' = trace st \<and> dirs st' = dirs st \<and> files st' = files st
       \<and> probe_done st' = (probe_done st)[i := True]"
  using assms by (auto simp: process_probe_def Let_def)

lemmas demo_defs = demo_cfg_def demo_world_def demo_sorter_dir_def sorter_fails_01_def
  sorter_fails_early_00_def sorter_ok_def demo_state_def demo_wiring_def demo_sync_def
  demo_si_def

lemmas run_defs = process_session_def process_probe_def post_sort_def sorter_failed_def
  load_recording_def rmtree_def extract_sync_def line_number_def digit_of_def nidq_pulses_def
  broadcast_and_def bind_exn_def bool_index_def times_file_def id_str_def
  condition_def labelled_def class_fraction_def destripe_def notch_stage_def
  pass_a_args_def pass_b_args_def

lemma sorting_failed_iff:
  "sorting_failed st n \<longleftrightarrow> (\<exists>err. SorterFailed n err \<in> set (trace st))"
proof -
  have "(case e of SorterFailed m err \<Rightarrow> m = n | _ \<Rightarrow> False) \<longleftrightarrow> (\<exists>err. e = SorterFailed n err)"
    for e :: "'a event"
    by (cases e) auto
  then show ?thesis
    by (auto simp: sorting_failed_def list_ex_iff)
qed

lemma probe_loop_frame:
  assumes "probe_loop cfg wir w session_path i ns st = (x, st')"
  shows "length (probe_done st') = length (probe_done st)
    \<and> (\<forall>j. j < i \<longrightarrow> probe_done st' ! j = probe_done st ! j)
    \<and> files st' (marker session_path) = files st (marker session_path)
    \<and> (\<forall>m. alf_dir cfg session_path m \<in> dirs st \<longrightarrow> alf_dir cfg session_path m \<in> dirs st')
    \<and> (\<exists>evs. trace st' = trace st @ evs \<and> (\<forall>e \<in> set evs. event_probe e \<in> set ns))"
  using assms
proof (induction ns arbitrary: i st)
  case Nil
  then show ?case by simp
next
  case (Cons n ns)
  obtain y st1 where step: "process_probe cfg wir w session_path i n st = (y, st1)"
    by (cases "process_probe cfg wir w session_path i n st") auto
  from process_probe_effect[OF step]
  obtain evs1 where s1: "length (probe_done st1) = length (probe_done st)"
    "\<forall>j. j \<noteq> i \<longrightarrow> probe_done st1 ! j = probe_done st ! j"
    "files st1 (marker session_path) = files st (marker session_path)"
    "\<forall>m. alf_dir cfg session_path m \<in> dirs st \<longrightarrow> alf_dir cfg session_path m \<in> dirs st1"
    "trace st1 = trace st @ evs1" "\<forall>e \<in> set evs1. event_probe e = n"
    by auto
  show ?case
  proof (cases y)
    case (Some e)
    with Cons.prems step have "st' = st1" by simp
    with s1 show ?thesis by auto
  next
    case None
    with Cons.prems step
    have rest: "probe_loop cfg wir w session_path (Suc i) ns st1 = (x, st')" by simp
    from Cons.IH[OF rest]
    obtain evs2 where s2: "length (probe_done st') = length (probe_done st1)"
      "\<forall>j. j < Suc i \<longrightarrow> probe_done st' ! j = probe_done st1 ! j"
      "files st' (marker session_path) = files st1 (marker session_path)"
      "\<forall>m. alf_dir cfg session_path m \<in> dirs st1 \<longrightarrow> alf_dir cfg session_path m \<in> dirs st'"
      "trace st' = trace st1 @ evs2" "\<forall>e \<in> set evs2. event_probe e \<in> set ns"
      by auto
    have "trace st' = trace st @ (evs1 @ evs2)"
      "\<forall>e \<in> set (evs1 @ evs2). event_probe e \<in> set (n # ns)"
      using s1 s2 by auto
    then have "\<exists>evs. trace st' = trace st @ evs \<and> (\<forall>e \<in> set evs. event_probe e \<in> set (n # ns))"
      by blast
    with s1 s2 show ?thesis by auto
  qed
qed

lemma probe_loop_skips:
  assumes "probe_loop cfg wir w session_path i ns st = (x, st')"
      and "alf_dir cfg session_path n \<in> dirs st"
  shows "filter (\<lambda>e. event_probe e = n) (trace st') = filter (\<lambda>e. event_probe e = n) (trace st)
    \<and> (\<forall>k. x = None \<and> k < length ns \<and> ns ! k = n \<and> i + k < length (probe_done st)
           \<longrightarrow> probe_done st' ! (i + k))"
  using assms
proof (induction ns arbitrary: i st)
  case Nil
  then show ?case by simp
next
  case (Cons m ns)
  obtain y st1 where step: "process_probe cfg wir w session_path i m st = (y, st1)"
    by (cases "process_probe cfg wir w session_path i m st") auto
  from process_probe_effect[OF step]
  obtain evs1 where s1: "length (probe_done st1) = length (probe_done st)"
    "\<forall>m. alf_dir cfg session_path m \<in> dirs st \<longrightarrow> alf_dir cfg session_path m \<in> dirs st1"
    "trace st1 = trace st @ evs1" "\<forall>e \<in> set evs1. event_probe e = m"
    by auto
  have tr1: "filter (\<lambda>e. event_probe e = n) (trace st1) = filter (\<lambda>e. event_probe e = n) (trace st)"
  proof (cases "m = n")
    case True
    with process_probe_skip[OF step] Cons.prems(2) show ?thesis by simp
  next
    case False
    with s1(4) have "filter (\<lambda>e. event_probe e = n) evs1 = []"
      by (auto simp: filter_empty_conv)
    with s1(3) show ?thesis by simp
  qed
  have head: "probe_done st1 ! i" if "m = n" "i < length (probe_done st)"
    using process_probe_skip[OF step] Cons.prems(2) that by simp
  show ?case
  proof (cases y)
    case (Some e)
    with Cons.prems(1) step have "st' = st1" "x \<noteq> None" by auto
    with tr1 show ?thesis by auto
  next
    case None
    with Cons.prems(1) step
    have rest: "probe_loop cfg wir w session_path (Suc i) ns st1 = (x, st')" by simp
    have dir1: "alf_dir cfg session_path n \<in> dirs st1"
      using s1(2) Cons.prems(2) by simp
    note ih = Cons.IH[OF rest dir1]
    have flags: "probe_done st' ! (i + k)"
      if "x = None" "k < length (m # ns)" "(m # ns) ! k = n" "i + k < length (probe_done st)" for k
    proof (cases k)
      case 0
      with that have "probe_done st1 ! i" using head by simp
      moreover have "probe_done st' ! i = probe_done st1 ! i"
        using probe_loop_frame[OF rest] by simp
      ultimately show ?thesis using 0 by simp
    next
      case (Suc k')
      with that s1(1) have "x = None \<and> k' < length ns \<and> ns ! k' = n
          \<and> Suc i + k' < length (probe_done st1)"
        by simp
      with ih have "probe_done st' ! (Suc i + k')" by blast
      with Suc show ?thesis by simp
    qed
    from ih tr1 flags show ?thesis by simp
  qed
qed

lemma probe_loop_failed:
  assumes "probe_loop cfg wir w session_path i ns st = (x, st')"
      and "distinct ns"
      and "\<forall>e \<in> set (trace st). event_probe e \<notin> set ns"
      and "k < length ns"
      and "sorting_failed st' (ns ! k)"
      and "\<not> probe_done st ! (i + k)"
  shows "\<not> probe_done st' ! (i + k)"
  using assms
proof (induction ns arbitrary: i st k)
  case Nil
  then show ?case by simp
next
  case (Cons m ns)
  obtain y st1 where step: "process_probe cfg wir w session_path i m st = (y, st1)"
    by (cases "process_probe cfg wir w session_path i m st") auto
  from process_probe_effect[OF step]
  obtain evs1 where s1:
    "\<forall>j. j \<noteq> i \<longrightarrow> probe_done st1 ! j = probe_done st ! j"
    "trace st1 = trace st @ evs1" "\<forall>e \<in> set evs1. event_probe e = m"
    "(\<exists>err. SorterFailed m err \<in> set evs1) \<longrightarrow> probe_done st1 = probe_done st"
    by auto
  obtain evs2 where s2: "trace st' = trace st1 @ evs2" "\<forall>e \<in> set evs2. event_probe e \<in> set ns"
    "\<forall>j. j < Suc i \<longrightarrow> probe_done st' ! j = probe_done st1 ! j"
    "y = None \<longrightarrow> probe_loop cfg wir w session_path (Suc i) ns st1 = (x, st')"
  proof (cases y)
    case (Some e)
    with Cons.prems(1) step have "st' = st1" by simp
    with Some show ?thesis using that[of "[]"] by simp
  next
    case None
    with Cons.prems(1) step
    have rest: "probe_loop cfg wir w session_path (Suc i) ns st1 = (x, st')" by simp
    from probe_loop_frame[OF rest] None rest show ?thesis
      using that by blast
  qed
  from Cons.prems(5) obtain err where failed: "SorterFailed ((m # ns) ! k) err \<in> set (trace st')"
    by (auto simp: sorting_failed_iff)
  have old: "\<forall>e \<in> set (trace st). event_probe e \<noteq> m \<and> event_probe e \<notin> set ns"
    using Cons.prems(3) by simp
  show ?case
  proof (cases k)
    case 0
    with failed s1(2) s2(1) have "SorterFailed m err \<in> set (trace st) \<union> set evs1 \<union> set evs2"
      by simp
    moreover have "SorterFailed m err \<notin> set (trace st)"
      using old by force
    moreover have "SorterFailed m err \<notin> set evs2"
      using s2(2) Cons.prems(2) by force
    ultimately have "SorterFailed m err \<in> set evs1" by blast
    with s1(4) have "probe_done st1 = probe_done st" by blast
    with s2(3) Cons.prems(6) 0 show ?thesis by simp
  next
    case (Suc k')
    with Cons.prems(4) have k': "k' < length ns" by simp
    then have mem: "ns ! k' \<in> set ns" by simp
    with Cons.prems(2) have ne: "ns ! k' \<noteq> m" by auto
    have y: "y = None"
    proof (rule ccontr)
      assume "y \<noteq> None"
      with Cons.prems(1) step have "st' = st1" by auto
      with failed Suc s1(2) have "SorterFailed (ns ! k') err \<in> set (trace st) \<union> set evs1"
        by simp
      moreover have "SorterFailed (ns ! k') err \<notin> set (trace st)"
        using old mem by force
      moreover have "SorterFailed (ns ! k') err \<notin> set evs1"
        using s1(3) ne by force
      ultimately show False by blast
    qed
    with s2(4) have rest: "probe_loop cfg wir w session_path (Suc i) ns st1 = (x, st')"
      by simp
    have fresh: "\<forall>e \<in> set (trace st1). event_probe e \<notin> set ns"
      using old s1(2,3) Cons.prems(2) by auto
    have "\<not> probe_done st1 ! (Suc i + k')"
      using s1(1) Cons.prems(6) Suc by simp
    moreover have "sorting_failed st' (ns ! k')"
      using Cons.prems(5) Suc by simp
    moreover have "distinct ns" using Cons.prems(2) by simp
    ultimately have "\<not> probe_done st' ! (Suc i + k')"
      using Cons.IH[OF rest _ fresh k'] by blast
    with Suc show ?thesis by simp
  qed
qed

lemma all_true_iff:
  "length (filter (\<lambda>b. b) bs) = length bs \<longleftrightarrow> (\<forall>k < length bs. bs ! k)"
proof -
  have "length (filter (\<lambda>b. b) bs) = length bs \<longleftrightarrow> (\<forall>b \<in> set bs. b)"
    by (metis filter_id_conv length_filter_less less_irrefl filter_True)
  then show ?thesis
    by (simp add: all_set_conv_all_nth)
qed

lemma process_session_cases:
  fixes w :: "'r world"
  assumes "process_session cfg wir w session_path st0 = (x, st')"
  obtains (loop_raised) e where
      "probe_loop cfg wir w session_path 0 (glob w (raw_dir session_path) ''probe*'')
         (st0\<lparr>probe_done := replicate (length (glob w (raw_dir session_path) ''probe*'')) False\<rparr>)
       = (Some e, st')" "x = Some e"
    | (finished) st1 where
      "probe_loop cfg wir w session_path 0 (glob w (raw_dir session_path) ''probe*'')
         (st0\<lparr>probe_done := replicate (length (glob w (raw_dir session_path) ''probe*'')) False\<rparr>)
       = (None, st1)"
      "length (filter (\<lambda>b. b) (probe_done st1)) = length (glob w (raw_dir session_path) ''probe*'')
         \<and> files st1 (marker session_path) \<noteq> None
       \<Longrightarrow> x = None \<and> st' = st1\<lparr>files := (files st1)(marker session_path := None)\<rparr>"
      "length (filter (\<lambda>b. b) (probe_done st1)) = length (glob w (raw_dir session_path) ''probe*'')
         \<and> files st1 (marker session_path) = None
       \<Longrightarrow> x = Some (FileNotFoundError (marker session_path)) \<and> st' = st1"
      "length (filter (\<lambda>b. b) (probe_done st1)) \<noteq> length (glob w (raw_dir session_path) ''probe*'')
       \<Longrightarrow> x = None \<and> st' = st1"
proof -
  let ?probes = "glob w (raw_dir session_path) ''probe*''"
  let ?st = "st0\<lparr>probe_done := replicate (length ?probes) False\<rparr>"
  obtain y st1 where loop: "probe_loop cfg wir w session_path 0 ?probes ?st = (y, st1)"
    by (cases "probe_loop cfg wir w session_path 0 ?probes ?st") auto
  show ?thesis
  proof (cases y)
    case (Some e)
    with assms loop show ?thesis
      by (intro loop_raised[of e]) (auto simp: process_session_def Let_def)
  next
    case None
    with assms loop show ?thesis
      by (intro finished[of st1]) (auto simp: process_session_def Let_def split: if_splits)
  qed
qed

text \<open>
  C1 (the claim as stated fails). In the session of the specification's own example,
  \<^verbatim>\<open>probe00\<close> is skipped as already processed and the sorter raises on \<^verbatim>\<open>probe01\<close>; the
  handler runs and the loop ends without an exception, so both probes are terminal in the
  sense of the claim, and the marker is still there.
\<close>

theorem marker_kept_after_sorter_failure:
  "fst (process_session demo_cfg demo_wiring (demo_world sorter_fails_01) [''session'']
          (demo_state True)) = None
   \<and> terminal (snd (process_session demo_cfg demo_wiring (demo_world sorter_fails_01)
          [''session''] (demo_state True))) 0 ''probe00''
   \<and> terminal (snd (process_session demo_cfg demo_wiring (demo_world sorter_fails_01)
          [''session''] (demo_state True))) 1 ''probe01''
   \<and> files (snd (process_session demo_cfg demo_wiring (demo_world sorter_fails_01)
          [''session''] (demo_state True))) (marker [''session'']) \<noteq> None"
  by (simp add: demo_defs run_defs path_defs Let_def terminal_def sorting_failed_def)

text \<open>
  C1 as amended. For a session whose marker is there, whose trace is empty at the start and
  whose probes have distinct names: after the run the marker is gone exactly when no
  exception left the run and every flag \<^verbatim>\<open>probe_done[k]\<close> is set. A probe for which the
  handler of the sorter's exception ran does not have its flag set, and the marker of its
  session stays.
\<close>

theorem marker_removed_iff_all_done:
  fixes w :: "'r world"
  assumes run: "process_session cfg wir w session_path st0 = (x, st')"
      and mark: "files st0 (marker session_path) \<noteq> None"
      and fresh: "trace st0 = []"
      and names: "distinct (glob w (raw_dir session_path) ''probe*'')"
  shows "(files st' (marker session_path) = None \<longleftrightarrow>
            x = None \<and>
            (\<forall>k < length (glob w (raw_dir session_path) ''probe*''). probe_done st' ! k))
       \<and> (\<forall>k < length (glob w (raw_dir session_path) ''probe*'').
            sorting_failed st' (glob w (raw_dir session_path) ''probe*'' ! k) \<longrightarrow>
              \<not> probe_done st' ! k \<and> files st' (marker session_path) \<noteq> None)"
proof -
  let ?probes = "glob w (raw_dir session_path) ''probe*''"
  let ?st = "st0\<lparr>probe_done := replicate (length ?probes) False\<rparr>"
  let ?marker = "marker session_path"
  have failed: "\<not> probe_done st1 ! k"
    if "probe_loop cfg wir w session_path 0 ?probes ?st = (y, st1)" "k < length ?probes"
      "sorting_failed st1 (?probes ! k)" for y st1 k
    using probe_loop_failed[OF that(1) names _ that(2), of ] that(2,3) fresh by simp
  have frame: "length (probe_done st1) = length ?probes \<and> files st1 ?marker \<noteq> None"
    if "probe_loop cfg wir w session_path 0 ?probes ?st = (y, st1)" for y st1
    using probe_loop_frame[OF that] mark by simp
  from run show ?thesis
  proof (cases rule: process_session_cases)
    case (loop_raised e)
    from frame[OF loop_raised(1)] failed[OF loop_raised(1)] loop_raised(2)
    show ?thesis by auto
  next
    case (finished st1)
    note fr = frame[OF finished(1)]
    show ?thesis
    proof (cases "length (filter (\<lambda>b. b) (probe_done st1)) = length ?probes")
      case True
      with finished(2) fr have st': "x = None" "st' = st1\<lparr>files := (files st1)(?marker := None)\<rparr>"
        by simp_all
      from True fr have all: "\<forall>k < length ?probes. probe_done st1 ! k"
        using all_true_iff[of "probe_done st1"] by simp
      have "sorting_failed st' n = sorting_failed st1 n" for n
        using st' by (simp add: sorting_failed_def)
      with failed[OF finished(1)] all st' show ?thesis
        by auto
    next
      case False
      with finished(4) have st': "x = None" "st' = st1" by simp_all
      from False fr have "\<not> (\<forall>k < length ?probes. probe_done st1 ! k)"
        using all_true_iff[of "probe_done st1"] by simp
      with failed[OF finished(1)] fr st' show ?thesis
        by auto
    qed
  qed
qed

theorem marker_removed_iff_all_done_witness:
  "files (demo_state True) (marker [''session'']) \<noteq> None
   \<and> trace (demo_state True) = []
   \<and> distinct (glob (demo_world sorter_ok) (raw_dir [''session'']) ''probe*'')
   \<and> probe_done (snd (process_session demo_cfg demo_wiring (demo_world sorter_ok)
          [''session''] (demo_state True))) = [True, True]
   \<and> files (snd (process_session demo_cfg demo_wiring (demo_world sorter_ok)
          [''session''] (demo_state True))) (marker [''session'']) = None
   \<and> sorting_failed (snd (process_session demo_cfg demo_wiring (demo_world sorter_fails_01)
          [''session''] (demo_state True))) ''probe01''
   \<and> \<not> probe_done (snd (process_session demo_cfg demo_wiring (demo_world sorter_fails_01)
          [''session''] (demo_state True))) ! 1
   \<and> files (snd (process_session demo_cfg demo_wiring (demo_world sorter_fails_01)
          [''session''] (demo_state True))) (marker [''session'']) \<noteq> None"
proof -
  let ?ok = "process_session demo_cfg demo_wiring (demo_world sorter_ok) [''session'']
               (demo_state True)"
  let ?bad = "process_session demo_cfg demo_wiring (demo_world sorter_fails_01) [''session'']
               (demo_state True)"
  have mark: "files (demo_state True) (marker [''session'']) \<noteq> None"
    and fresh: "trace (demo_state True) = []"
    by (simp_all add: demo_state_def marker_def join_def)
  have names_ok: "distinct (glob (demo_world sorter_ok) (raw_dir [''session'']) ''probe*'')"
    and names_bad: "distinct (glob (demo_world sorter_fails_01) (raw_dir [''session'']) ''probe*'')"
    by (simp_all add: demo_world_def)
  have probes: "glob (demo_world sorter_ok) (raw_dir [''session'']) ''probe*''
                  = [''probe00'', ''probe01'']"
    "glob (demo_world sorter_fails_01) (raw_dir [''session'']) ''probe*''
                  = [''probe00'', ''probe01'']"
    by (simp_all add: demo_world_def)
  have ok: "fst ?ok = None" "probe_done (snd ?ok) = [True, True]"
    by (simp_all add: demo_defs run_defs path_defs Let_def)
  have bad: "sorting_failed (snd ?bad) ''probe01''"
    by (simp add: demo_defs run_defs path_defs Let_def sorting_failed_def)
  have run_ok: "?ok = (fst ?ok, snd ?ok)" and run_bad: "?bad = (fst ?bad, snd ?bad)"
    by simp_all
  note inst_ok = marker_removed_iff_all_done[OF run_ok mark fresh names_ok]
  note inst_bad = marker_removed_iff_all_done[OF run_bad mark fresh names_bad]
  have all: "\<forall>k < length [''probe00'', ''probe01'']. probe_done (snd ?ok) ! k"
    unfolding ok(2) by (auto simp: less_Suc_eq)
  from inst_ok have "files (snd ?ok) (marker [''session'']) = None \<longleftrightarrow>
      fst ?ok = None \<and> (\<forall>k < length [''probe00'', ''probe01'']. probe_done (snd ?ok) ! k)"
    unfolding probes by (rule conjunct1)
  with ok(1) all have gone: "files (snd ?ok) (marker [''session'']) = None"
    by blast
  from inst_bad have each: "\<forall>k < length [''probe00'', ''probe01''].
      sorting_failed (snd ?bad) ([''probe00'', ''probe01''] ! k) \<longrightarrow>
      \<not> probe_done (snd ?bad) ! k \<and> files (snd ?bad) (marker [''session'']) \<noteq> None"
    unfolding probes by (rule conjunct2)
  have second: "(1::nat) < length [''probe00'', ''probe01'']"
    by simp
  have "sorting_failed (snd ?bad) ([''probe00'', ''probe01''] ! 1)"
    using bad by simp
  from each[rule_format, OF second this]
  have kept: "\<not> probe_done (snd ?bad) ! 1"
    "files (snd ?bad) (marker [''session'']) \<noteq> None"
    by blast+
  show ?thesis
    by (intro conjI mark fresh names_ok ok(2) gone bad kept)
qed

text \<open>
  The handler of the sorter's exception, when the sorter's folder exists at that point (the
  sorter created it, or it was there before) and is not named \<^verbatim>\<open>error_log.txt\<close>: the text
  of the exception is in \<^verbatim>\<open>error_log.txt\<close>, the folder is gone, the flag of the probe is
  not set, and the loop goes on with the next probe.
\<close>

lemma sorter_failure_handled:
  fixes w :: "'r world"
  assumes fresh: "alf_dir cfg session_path this_probe \<notin> dirs st"
      and chain: "bind_exn (load_recording w (join (raw_dir session_path) this_probe) this_probe)
                   (condition (si_lib w)
                      (notch_filter_json w (join (raw_dir session_path) this_probe))) = Inr env"
      and raised: "run_sorter w (SPIKE_SORTER cfg) (rec_final env)
                   (sorter_dir cfg (join (raw_dir session_path) this_probe)) = Raised err created"
      and folder: "created \<or> sorter_dir cfg (join (raw_dir session_path) this_probe) \<in> dirs st"
      and name: "SPIKE_SORTER cfg @ id_str cfg \<noteq> ''error_log.txt''"
  shows "\<exists>st1. process_probe cfg wir w session_path i this_probe st = (None, st1)
       \<and> files st1 (join (join (raw_dir session_path) this_probe) ''error_log.txt'')
           = Some (Text err)
       \<and> sorter_dir cfg (join (raw_dir session_path) this_probe) \<notin> dirs st1
       \<and> probe_done st1 = probe_done st
       \<and> probe_loop cfg wir w session_path i (this_probe # others) st
           = probe_loop cfg wir w session_path (Suc i) others st1"
  using assms
  by (auto simp: process_probe_def sorter_failed_def rmtree_def Let_def path_defs)

text \<open>
  The same handler when the sorter raised before its folder existed:
  \<^verbatim>\<open>shutil.rmtree\<close> raises, the exception leaves the loop, and no later probe is processed.
\<close>

lemma sorter_failure_without_folder:
  fixes w :: "'r world"
  assumes fresh: "alf_dir cfg session_path this_probe \<notin> dirs st"
      and chain: "bind_exn (load_recording w (join (raw_dir session_path) this_probe) this_probe)
                   (condition (si_lib w)
                      (notch_filter_json w (join (raw_dir session_path) this_probe))) = Inr env"
      and raised: "run_sorter w (SPIKE_SORTER cfg) (rec_final env)
                   (sorter_dir cfg (join (raw_dir session_path) this_probe)) = Raised err False"
      and folder: "sorter_dir cfg (join (raw_dir session_path) this_probe) \<notin> dirs st"
  shows "fst (probe_loop cfg wir w session_path i (this_probe # others) st)
           = Some (FileNotFoundError (sorter_dir cfg (join (raw_dir session_path) this_probe)))
       \<and> trace (snd (probe_loop cfg wir w session_path i (this_probe # others) st))
           = trace st @ [EphysSyncPulses this_probe, EphysPulses this_probe,
               Conditioning this_probe, RunSorter this_probe (rec_final env),
               SorterFailed this_probe err]"
  using assms
  by (auto simp: process_probe_def sorter_failed_def Let_def)

text \<open>
  C2 (the code departs from the claim). In a session with two probes to process, the sorter
  raises on \<^verbatim>\<open>probe00\<close> before it has created its output folder. The handler writes the
  error log, then \<^verbatim>\<open>shutil.rmtree\<close> raises FileNotFoundError: the run ends with that
  exception, and nothing at all is done for \<^verbatim>\<open>probe01\<close>.
\<close>

theorem sorter_failure_aborts_session:
  "fst (process_session demo_cfg demo_wiring (demo_world sorter_fails_early_00) [''session'']
          (demo_state False))
     = Some (FileNotFoundError [''session'', ''raw_ephys_data'', ''probe00'', ''kilosort2_5_v1''])
   \<and> files (snd (process_session demo_cfg demo_wiring (demo_world sorter_fails_early_00)
          [''session''] (demo_state False)))
        [''session'', ''raw_ephys_data'', ''probe00'', ''error_log.txt'']
       = Some (Text ''not installed'')
   \<and> filter (\<lambda>e. event_probe e = ''probe01'')
        (trace (snd (process_session demo_cfg demo_wiring (demo_world sorter_fails_early_00)
          [''session''] (demo_state False)))) = []
   \<and> probe_done (snd (process_session demo_cfg demo_wiring (demo_world sorter_fails_early_00)
          [''session''] (demo_state False))) = [False, False]"
  by (simp add: demo_defs run_defs path_defs Let_def)

text \<open>
  C3. In a run of a session, for every probe whose output directory (the session directory
  joined with the probe's name and the identifier suffix) exists at the start: the run makes
  no call for that probe (no synchronisation task, no conditioning, no sorter, no export),
  and when the run ends without an exception the probe's flag \<^verbatim>\<open>probe_done\<close> is set. And
  when the run removed the marker, every probe of the session is terminal.
\<close>

theorem resume_skips_done_probes:
  fixes w :: "'r world"
  assumes run: "process_session cfg wir w session_path st0 = (x, st')"
  shows "(\<forall>k < length (glob w (raw_dir session_path) ''probe*'').
            alf_dir cfg session_path (glob w (raw_dir session_path) ''probe*'' ! k) \<in> dirs st0 \<longrightarrow>
              filter (\<lambda>e. event_probe e = glob w (raw_dir session_path) ''probe*'' ! k) (trace st')
                = filter (\<lambda>e. event_probe e = glob w (raw_dir session_path) ''probe*'' ! k)
                    (trace st0)
              \<and> (x = None \<longrightarrow> probe_done st' ! k))
       \<and> (files st0 (marker session_path) \<noteq> None \<and> files st' (marker session_path) = None \<longrightarrow>
            (\<forall>k < length (glob w (raw_dir session_path) ''probe*'').
               terminal st' k (glob w (raw_dir session_path) ''probe*'' ! k)))"
proof -
  let ?probes = "glob w (raw_dir session_path) ''probe*''"
  let ?st = "st0\<lparr>probe_done := replicate (length ?probes) False\<rparr>"
  let ?marker = "marker session_path"
  have skip: "filter (\<lambda>e. event_probe e = ?probes ! k) (trace st1)
                = filter (\<lambda>e. event_probe e = ?probes ! k) (trace st0)
              \<and> (y = None \<longrightarrow> probe_done st1 ! k)"
    if "probe_loop cfg wir w session_path 0 ?probes ?st = (y, st1)" "k < length ?probes"
      "alf_dir cfg session_path (?probes ! k) \<in> dirs st0" for y st1 k
    using probe_loop_skips[OF that(1), of "?probes ! k"] that(2,3) by simp
  have frame: "length (probe_done st1) = length ?probes
             \<and> files st1 ?marker = files st0 ?marker"
    if "probe_loop cfg wir w session_path 0 ?probes ?st = (y, st1)" for y st1
    using probe_loop_frame[OF that] by simp
  from run show ?thesis
  proof (cases rule: process_session_cases)
    case (loop_raised e)
    from skip[OF loop_raised(1)] frame[OF loop_raised(1)] loop_raised(2)
    show ?thesis by auto
  next
    case (finished st1)
    note fr = frame[OF finished(1)]
    note sk = skip[OF finished(1)]
    show ?thesis
    proof (cases "length (filter (\<lambda>b. b) (probe_done st1)) = length ?probes")
      case True
      from True fr have all: "\<forall>k < length ?probes. probe_done st1 ! k"
        using all_true_iff[of "probe_done st1"] by simp
      show ?thesis
      proof (cases "files st1 ?marker = None")
        case True
        with finished(3) \<open>length (filter (\<lambda>b. b) (probe_done st1)) = length ?probes\<close>
        have "st' = st1" by simp
        with sk all show ?thesis
          by (auto simp: terminal_def)
      next
        case False
        with finished(2) \<open>length (filter (\<lambda>b. b) (probe_done st1)) = length ?probes\<close>
        have "x = None" "st' = st1\<lparr>files := (files st1)(?marker := None)\<rparr>" by simp_all
        with sk all show ?thesis
          by (auto simp: terminal_def)
      qed
    next
      case False
      with finished(4) have st': "x = None" "st' = st1" by simp_all
      with fr sk show ?thesis
        by auto
    qed
  qed
qed

theorem resume_skips_done_probes_witness:
  "alf_dir demo_cfg [''session''] ''probe00'' \<in> dirs (demo_state True)
   \<and> filter (\<lambda>e. event_probe e = ''probe00'')
        (trace (snd (process_session demo_cfg demo_wiring (demo_world sorter_ok)
          [''session''] (demo_state True)))) = []
   \<and> probe_done (snd (process_session demo_cfg demo_wiring (demo_world sorter_ok)
          [''session''] (demo_state True))) ! 0
   \<and> files (snd (process_session demo_cfg demo_wiring (demo_world sorter_ok)
          [''session''] (demo_state True))) (marker [''session'']) = None
   \<and> terminal (snd (process_session demo_cfg demo_wiring (demo_world sorter_ok)
          [''session''] (demo_state True))) 0 ''probe00''
   \<and> terminal (snd (process_session demo_cfg demo_wiring (demo_world sorter_ok)
          [''session''] (demo_state True))) 1 ''probe01''"
proof -
  let ?ok = "process_session demo_cfg demo_wiring (demo_world sorter_ok) [''session'']
               (demo_state True)"
  have probes: "glob (demo_world sorter_ok) (raw_dir [''session'']) ''probe*''
                  = [''probe00'', ''probe01'']"
    by (simp add: demo_world_def)
  have there: "alf_dir demo_cfg [''session''] ''probe00'' \<in> dirs (demo_state True)"
    by (simp add: demo_state_def demo_cfg_def alf_dir_def join_def id_str_def)
  have start: "files (demo_state True) (marker [''session'']) \<noteq> None"
    "trace (demo_state True) = []"
    by (simp_all add: demo_state_def marker_def join_def)
  have ok: "fst ?ok = None" "files (snd ?ok) (marker [''session'']) = None"
    by (simp_all add: demo_defs run_defs path_defs Let_def)
  have run_ok: "?ok = (fst ?ok, snd ?ok)"
    by simp
  note inst = resume_skips_done_probes[OF run_ok]
  from inst have each: "\<forall>k < length [''probe00'', ''probe01''].
      alf_dir demo_cfg [''session''] ([''probe00'', ''probe01''] ! k) \<in> dirs (demo_state True) \<longrightarrow>
        filter (\<lambda>e. event_probe e = [''probe00'', ''probe01''] ! k) (trace (snd ?ok))
          = filter (\<lambda>e. event_probe e = [''probe00'', ''probe01''] ! k) (trace (demo_state True))
        \<and> (fst ?ok = None \<longrightarrow> probe_done (snd ?ok) ! k)"
    unfolding probes by (rule conjunct1)
  have first: "(0::nat) < length [''probe00'', ''probe01'']"
    and second: "(1::nat) < length [''probe00'', ''probe01'']"
    by simp_all
  have "alf_dir demo_cfg [''session''] ([''probe00'', ''probe01''] ! 0) \<in> dirs (demo_state True)"
    using there by simp
  from each[rule_format, OF first this]
  have "filter (\<lambda>e. event_probe e = [''probe00'', ''probe01''] ! 0) (trace (snd ?ok))
          = filter (\<lambda>e. event_probe e = [''probe00'', ''probe01''] ! 0) (trace (demo_state True))"
    and "fst ?ok = None \<longrightarrow> probe_done (snd ?ok) ! 0"
    by blast+
  then have skipped: "filter (\<lambda>e. event_probe e = ''probe00'') (trace (snd ?ok)) = []"
    "probe_done (snd ?ok) ! 0"
    using start(2) ok(1) by simp_all
  from inst have "files (demo_state True) (marker [''session'']) \<noteq> None
      \<and> files (snd ?ok) (marker [''session'']) = None \<longrightarrow>
      (\<forall>k < length [''probe00'', ''probe01''].
         terminal (snd ?ok) k ([''probe00'', ''probe01''] ! k))"
    unfolding probes by (rule conjunct2)
  with start(1) ok(2) have all: "\<forall>k < length [''probe00'', ''probe01''].
         terminal (snd ?ok) k ([''probe00'', ''probe01''] ! k)"
    by blast
  from all[rule_format, OF first] all[rule_format, OF second]
  have fin: "terminal (snd ?ok) 0 ''probe00''" "terminal (snd ?ok) 1 ''probe01''"
    by simp_all
  show ?thesis
    by (intro conjI there skipped ok(2) fin)
qed

end
